theory Spec2Isabelle
  imports Main "HOL-Library.AList" "HOL-Library.Word"
begin

unbundle bit_operations_syntax

section \<open>Python values\<close>

text \<open>
  The values that travel through the handlers are JSON documents: \<open>None\<close>, booleans,
  integers, strings, lists and dictionaries with string keys. A dictionary is an
  association list in insertion order, as a Python \<open>dict\<close> iterates.
\<close>

datatype pyval =
    PNone
  | PBool bool
  | PInt int
  | PStr string
  | PList "pyval list"
  | PDict "(string \<times> pyval) list"

type_synonym pydict = "(string \<times> pyval) list"

text \<open>
  The exceptions the modelled code raises, catches or lets through. \<open>PostgresError\<close>
  stands for every error of the database driver other than a uniqueness violation, a
  lost connection for one; \<open>RecursionError\<close> is what the interpreter raises when a call
  would pass its recursion limit.
\<close>

datatype py_exn =
    KeyError
  | TypeError
  | ValueError
  | AttributeError
  | BinasciiError
  | ImageError string
  | DocumentError
  | DecodeError
  | BadRequest string
  | Unauthorized
  | Forbidden
  | UniqueViolationError
  | PostgresError
  | RecursionError

text \<open>
  \<open>except ValueError\<close> catches \<open>ValueError\<close> and its subclasses; \<open>binascii.Error\<close>,
  which \<open>base64.b64decode\<close> raises, is one.
\<close>

fun is_ValueError :: "py_exn \<Rightarrow> bool" where
  "is_ValueError ValueError = True"
| "is_ValueError BinasciiError = True"
| "is_ValueError _ = False"

text \<open>\<open>a, b = xs\<close>: a list of any other length than two raises \<open>ValueError\<close>.\<close>

definition unpack2 :: "'a list \<Rightarrow> py_exn + ('a \<times> 'a)" where
  "unpack2 xs = (case xs of [a, b] \<Rightarrow> Inr (a, b) | _ \<Rightarrow> Inl ValueError)"

text \<open>
  \<open>v[k]\<close> with a string key: a dictionary returns the value or raises \<open>KeyError\<close>;
  every other value (a list, a string, a number, \<open>None\<close>) raises \<open>TypeError\<close>, since
  none of them can be indexed by a string.
\<close>

fun getitem :: "pyval \<Rightarrow> string \<Rightarrow> py_exn + pyval" where
  "getitem (PDict kvs) k = (case map_of kvs k of None \<Rightarrow> Inl KeyError | Some v \<Rightarrow> Inr v)"
| "getitem _ k = Inl TypeError"

text \<open>
  \<open>s.split(sep)\<close> with a one-character separator: the pieces between the occurrences
  of \<open>sep\<close>; a string with \<open>n\<close> separators gives \<open>n + 1\<close> pieces, the empty string one
  empty piece.
\<close>

fun py_split :: "char \<Rightarrow> string \<Rightarrow> string list" where
  "py_split sep [] = [[]]"
| "py_split sep (c # cs) =
     (if c = sep then [] # py_split sep cs
      else (case py_split sep cs of
              [] \<Rightarrow> [[c]]
            | p # ps \<Rightarrow> (c # p) # ps))"


section \<open>litecord/embed/sanitizer.py\<close>

text \<open>\<open>sanitize_embed\<close>: \<open>{**embed, **{"type": "rich"}}\<close>.\<close>

definition sanitize_embed :: "pydict \<Rightarrow> pydict" where
  "sanitize_embed emb = AList.update ''type'' (PStr ''rich'') emb"

text \<open>
  \<open>path_exists\<close>: the argument is a string, split at the dots, or a list of components.
  The recursive call always passes a list, so the recursion is on the component list.
  Each call, the recursive ones too, takes one frame of the interpreter's stack, which
  \<open>sys.getrecursionlimit()\<close> bounds (1000 unless it is changed): \<open>frames\<close> is the number
  of frames left when the function is called, and a call with no frame left raises
  \<open>RecursionError\<close>. The handler \<open>except (KeyError, TypeError, ValueError)\<close> covers the
  lookup and the recursive call; an exception that is none of the three, and
  \<open>RecursionError\<close> is none of them, is not caught and leaves the function.
\<close>

datatype components_in = CStr string | CList "string list"

definition caught :: "py_exn \<Rightarrow> bool" where
  "caught e = (e = KeyError \<or> e = TypeError \<or> e = ValueError)"

fun path_exists_list :: "nat \<Rightarrow> pyval \<Rightarrow> string list \<Rightarrow> py_exn + bool" where
  "path_exists_list 0 emb components = Inl RecursionError"
| "path_exists_list (Suc frames) emb [] = Inr True"
| "path_exists_list (Suc frames) emb (current # rest) =
     (case getitem emb current of
        Inl e \<Rightarrow> (if caught e then Inr False else Inl e)
      | Inr v \<Rightarrow>
          (case path_exists_list frames v rest of
             Inl e \<Rightarrow> (if caught e then Inr False else Inl e)
           | Inr b \<Rightarrow> Inr b))"

fun path_exists :: "nat \<Rightarrow> pyval \<Rightarrow> components_in \<Rightarrow> py_exn + bool" where
  "path_exists frames emb (CStr s) = path_exists_list frames emb (py_split CHR ''.'' s)"
| "path_exists frames emb (CList cs) = path_exists_list frames emb cs"

text \<open>
  What the docstring of \<open>path_exists\<close> describes: going down one level per component.
  \<open>index_path v cs\<close> is the value reached, when every lookup succeeds.
\<close>

fun index_path :: "pyval \<Rightarrow> string list \<Rightarrow> pyval option" where
  "index_path v [] = Some v"
| "index_path v (c # cs) =
     (case getitem v c of Inr v' \<Rightarrow> index_path v' cs | Inl e \<Rightarrow> None)"

fun components_of :: "components_in \<Rightarrow> string list" where
  "components_of (CStr s) = py_split CHR ''.'' s"
| "components_of (CList cs) = cs"

text \<open>
  Examples: a dictionary nested \<open>n\<close> levels deep under the key \<open>a\<close>, and the path of
  \<open>n\<close> components that reaches its bottom.
\<close>

fun nest :: "nat \<Rightarrow> pyval" where
  "nest 0 = PInt 1"
| "nest (Suc n) = PDict [(''a'', nest n)]"

definition deep_path :: "nat \<Rightarrow> components_in" where
  "deep_path n = CList (replicate n ''a'')"


section \<open>litecord/images.py\<close>

type_synonym bytes = "8 word list"

text \<open>
  \<open>base64.b64decode(s)\<close> of the standard library, as \<open>to_raw\<close> calls it: on a string,
  with \<open>validate\<close> left at its default \<open>False\<close>. The string is first encoded as ASCII,
  which raises \<open>ValueError\<close> at a character above 127; the bytes then go to
  \<open>binascii.a2b_base64\<close> in its non-strict mode.
\<close>

definition b64_alphabet :: string where
  "b64_alphabet = ''ABCDEFGHIJKLMNOPQRSTUVWXYZabcdefghijklmnopqrstuvwxyz0123456789+/''"

fun index_of :: "'a \<Rightarrow> 'a list \<Rightarrow> nat option" where
  "index_of x [] = None"
| "index_of x (y # ys) = (if x = y then Some 0 else map_option Suc (index_of x ys))"

text \<open>The decoding table: the six bits of a character of the alphabet, none for any other.\<close>

definition b64_value :: "char \<Rightarrow> nat option" where
  "b64_value c = index_of c b64_alphabet"

text \<open>
  The loop of \<open>a2b_base64\<close> over the characters. \<open>quad_pos\<close> is the position in the
  current group of four, \<open>leftchar\<close> the bits not yet written, \<open>pads\<close> the padding
  characters counted, from position 2 on, since the last character of the alphabet. A
  character outside the alphabet is skipped. A padding character ends the decoding
  when it completes the group (at position 2 with a second one, at position 3 at
  once) and is skipped otherwise. At the end of the input an incomplete group raises
  \<open>binascii.Error\<close>.
\<close>

fun a2b_loop :: "nat \<Rightarrow> 8 word \<Rightarrow> nat \<Rightarrow> bytes \<Rightarrow> string \<Rightarrow> py_exn + bytes" where
  "a2b_loop quad_pos leftchar pads bin_data [] =
     (if quad_pos \<noteq> 0 then Inl BinasciiError else Inr bin_data)"
| "a2b_loop quad_pos leftchar pads bin_data (c # cs) =
     (if c = CHR ''='' then
        (if 2 \<le> quad_pos \<and> 4 \<le> quad_pos + Suc pads then Inr bin_data
         else a2b_loop quad_pos leftchar (if 2 \<le> quad_pos then Suc pads else pads) bin_data cs)
      else
        (case b64_value c of
           None \<Rightarrow> a2b_loop quad_pos leftchar pads bin_data cs
         | Some v \<Rightarrow>
             (let this_ch = (of_nat v :: 8 word) in
              if quad_pos = 0 then a2b_loop 1 this_ch 0 bin_data cs
              else if quad_pos = 1 then
                a2b_loop 2 (this_ch AND 0x0f) 0
                  (bin_data @ [push_bit 2 leftchar OR drop_bit 4 this_ch]) cs
              else if quad_pos = 2 then
                a2b_loop 3 (this_ch AND 0x03) 0
                  (bin_data @ [push_bit 4 leftchar OR drop_bit 2 this_ch]) cs
              else
                a2b_loop 0 0 0 (bin_data @ [push_bit 6 leftchar OR this_ch]) cs)))"

definition a2b_base64 :: "string \<Rightarrow> py_exn + bytes" where
  "a2b_base64 s = a2b_loop 0 0 0 [] s"

definition is_ascii :: "char \<Rightarrow> bool" where
  "is_ascii c = (of_char c < (128 :: nat))"

definition b64decode :: "string \<Rightarrow> py_exn + bytes" where
  "b64decode s = (if list_all is_ascii s then a2b_base64 s else Inl ValueError)"

text \<open>\<open>to_raw\<close>: it returns \<open>None\<close> for every data type other than \<open>base64\<close>.\<close>

definition to_raw :: "string \<Rightarrow> string \<Rightarrow> py_exn + bytes option" where
  "to_raw data_type data =
     (if data_type = ''base64''
      then (case b64decode data of Inl e \<Rightarrow> Inl e | Inr raw \<Rightarrow> Inr (Some raw))
      else Inr None)"

text \<open>The body of the \<open>try\<close> block of \<open>parse_data_uri\<close>.\<close>

definition parse_data_uri_try :: "string \<Rightarrow> py_exn + (string \<times> bytes)" where
  "parse_data_uri_try string =
     (case unpack2 (py_split CHR '';'' string) of
        Inl e \<Rightarrow> Inl e
      | Inr (header, headered_data) \<Rightarrow>
     (case unpack2 (py_split CHR '':'' header) of
        Inl e \<Rightarrow> Inl e
      | Inr (u, given_mime) \<Rightarrow>
     (case unpack2 (py_split CHR '','' headered_data) of
        Inl e \<Rightarrow> Inl e
      | Inr (data_type, data) \<Rightarrow>
     (case to_raw data_type data of
        Inl e \<Rightarrow> Inl e
      | Inr None \<Rightarrow> Inl (ImageError ''Unknown data header'')
      | Inr (Some raw_data) \<Rightarrow> Inr (given_mime, raw_data)))))"

text \<open>\<open>parse_data_uri\<close>: the \<open>try\<close> block under its handler \<open>except ValueError\<close>.\<close>

definition parse_data_uri :: "string \<Rightarrow> py_exn + (string \<times> bytes)" where
  "parse_data_uri string =
     (case parse_data_uri_try string of
        Inl e \<Rightarrow> (if is_ValueError e then Inl (ImageError ''data URI invalid syntax'') else Inl e)
      | Inr r \<Rightarrow> Inr r)"


section \<open>Python helpers\<close>

text \<open>Truth value of a Python object, as \<open>if x\<close> and \<open>not x\<close> test it.\<close>

fun truthy :: "pyval \<Rightarrow> bool" where
  "truthy PNone = False"
| "truthy (PBool b) = b"
| "truthy (PInt i) = (i \<noteq> 0)"
| "truthy (PStr s) = (s \<noteq> [])"
| "truthy (PList xs) = (xs \<noteq> [])"
| "truthy (PDict kvs) = (kvs \<noteq> [])"

text \<open>\<open>str(n)\<close> of an integer: its decimal digits, with a minus sign when negative.\<close>

definition digit_char :: "nat \<Rightarrow> char" where
  "digit_char d = ''0123456789'' ! d"

fun str_nat :: "nat \<Rightarrow> string" where
  "str_nat n = (if n < 10 then [digit_char n] else str_nat (n div 10) @ [digit_char (n mod 10)])"

declare str_nat.simps [simp del]

definition str_int :: "int \<Rightarrow> string" where
  "str_int i = (if i < 0 then CHR ''-'' # str_nat (nat (- i)) else str_nat (nat i))"

text \<open>
  \<open>random.randint(a, b)\<close> returns an integer of the closed interval from \<open>a\<close> to \<open>b\<close>.
  The generator is a parameter: \<open>raw\<close> is what it produces for this call, reduced to
  the interval.
\<close>

definition randint :: "int \<Rightarrow> int \<Rightarrow> nat \<Rightarrow> int" where
  "randint a b raw = a + int (raw mod nat (b - a + 1))"


section \<open>litecord/blueprints/users.py: the database\<close>

text \<open>The SQL statements of the module, each with the arguments bound to \<open>$1, $2, ...\<close>.\<close>

datatype statement =
    SelectExistingUid pyval string
      \<comment> \<open>SELECT user_id FROM users WHERE preferred_username = $1 AND discriminator = $2\<close>
  | UpdateDiscriminator string int
      \<comment> \<open>UPDATE users SET discriminator = $1 WHERE users.id = $2\<close>
  | UpdateUsername pyval int
      \<comment> \<open>UPDATE users SET username = $1 WHERE users.id = $2\<close>
  | SelectDiscriminator int
      \<comment> \<open>SELECT discriminator FROM users WHERE users.id = $1\<close>
  | UpdateUsernameDiscriminator pyval string int
      \<comment> \<open>UPDATE users SET username = $1, discriminator = $2 WHERE users.id = $3\<close>
  | SelectPasswordHash int
      \<comment> \<open>SELECT password_hash FROM users WHERE id = $1\<close>
  | PatchDiscriminator string int
      \<comment> \<open>UPDATE users SET discriminator = $1 WHERE id = $2\<close>
  | UpdateEmail pyval int
      \<comment> \<open>UPDATE users SET email = $1 WHERE id = $2\<close>
  | UpdatePasswordHash string int
      \<comment> \<open>UPDATE users SET password_hash = $1 WHERE id = $2\<close>
  | DeleteMember int int
      \<comment> \<open>DELETE FROM members WHERE user_id = $1 AND guild_id = $2\<close>
  | UpdateSetting string pyval
      \<comment> \<open>UPDATE user_settings SET \{key\}=$1\<close>

text \<open>
  The database (\<open>app.db\<close>), the random generator and the helpers imported from other
  modules are parameters. \<open>db_execute\<close> returns the new database or raises;
  \<open>db_fetch\<close> stands for \<open>fetchrow\<close> and \<open>fetchval\<close> and returns the row or the value
  (\<open>None\<close> when there is none) or raises; \<open>rand k\<close> is what the generator produces at its
  \<open>k\<close>-th call; \<open>check_username_usage\<close> (from \<open>blueprints/auth.py\<close>) raises or returns.
\<close>

record 'db env =
  db_execute :: "statement \<Rightarrow> 'db \<Rightarrow> py_exn + 'db"
  db_fetch :: "statement \<Rightarrow> 'db \<Rightarrow> py_exn + pyval"
  rand :: "nat \<Rightarrow> nat"
  check_username_usage :: "pyval \<Rightarrow> 'db \<Rightarrow> py_exn option"

text \<open>
  The state a handler runs in: the database, the number of random draws made, and the
  statements sent to the database so far, in order.
\<close>

record 'db dbstate =
  db :: 'db
  draws :: nat
  queries :: "statement list"

text \<open>
  \<open>await app.db.execute(stmt, *args)\<close> and \<open>await app.db.fetchrow(stmt, *args)\<close>. A
  statement that raises leaves the database as it was. The state is returned beside
  the outcome, since what was written before an exception stays written.
\<close>

definition execute :: "('db, 'e) env_scheme \<Rightarrow> statement \<Rightarrow> ('db, 'm) dbstate_scheme
    \<Rightarrow> (py_exn + unit) \<times> ('db, 'm) dbstate_scheme" where
  "execute E stmt w =
     (let w1 = w\<lparr>queries := queries w @ [stmt]\<rparr>
      in case db_execute E stmt (db w) of
           Inl e \<Rightarrow> (Inl e, w1)
         | Inr d \<Rightarrow> (Inr (), w1\<lparr>db := d\<rparr>))"

definition fetch :: "('db, 'e) env_scheme \<Rightarrow> statement \<Rightarrow> ('db, 'm) dbstate_scheme
    \<Rightarrow> (py_exn + pyval) \<times> ('db, 'm) dbstate_scheme" where
  "fetch E stmt w =
     (db_fetch E stmt (db w), w\<lparr>queries := queries w @ [stmt]\<rparr>)"

text \<open>\<open>random.randint(1, 9999)\<close>, consuming one draw.\<close>

definition draw_randint :: "('db, 'e) env_scheme \<Rightarrow> int \<Rightarrow> int \<Rightarrow> ('db, 'm) dbstate_scheme
    \<Rightarrow> int \<times> ('db, 'm) dbstate_scheme" where
  "draw_randint E a b w = (randint a b (rand E (draws w)), w\<lparr>draws := Suc (draws w)\<rparr>)"

text \<open>
  \<open>_try_reroll\<close>. The loop \<open>for _ in range(10)\<close> is the recursion on the number of
  iterations left. \<open>preferred_username\<close> is a string or \<open>None\<close> (its default), and
  \<open>if preferred_username\<close> is false for \<open>None\<close> and for the empty string. The
  \<open>SELECT\<close> is outside any \<open>try\<close>, so every exception it raises leaves the function;
  an exception of the \<open>UPDATE\<close> other than \<open>UniqueViolationError\<close> is not caught
  either. The result is the discriminator, or \<open>None\<close> when the loop runs out.
\<close>

fun reroll_loop :: "('db, 'e) env_scheme \<Rightarrow> nat \<Rightarrow> int \<Rightarrow> pyval \<Rightarrow> ('db, 'm) dbstate_scheme
    \<Rightarrow> (py_exn + string option) \<times> ('db, 'm) dbstate_scheme" where
  "reroll_loop E 0 user_id preferred_username w = (Inr None, w)"
| "reroll_loop E (Suc n) user_id preferred_username w =
     (let (r, w1) = draw_randint E 1 9999 w;
          reroll = str_int r
      in if truthy preferred_username then
           (case fetch E (SelectExistingUid preferred_username reroll) w1 of
              (Inl e, w2) \<Rightarrow> (Inl e, w2)
            | (Inr existing_uid, w2) \<Rightarrow>
                (if \<not> truthy existing_uid then (Inr (Some reroll), w2)
                 else reroll_loop E n user_id preferred_username w2))
         else
           (case execute E (UpdateDiscriminator reroll user_id) w1 of
              (Inr u, w2) \<Rightarrow> (Inr (Some reroll), w2)
            | (Inl e, w2) \<Rightarrow>
                (if e = UniqueViolationError then reroll_loop E n user_id preferred_username w2
                 else (Inl e, w2))))"

definition try_reroll :: "('db, 'e) env_scheme \<Rightarrow> int \<Rightarrow> pyval \<Rightarrow> ('db, 'm) dbstate_scheme
    \<Rightarrow> (py_exn + string option) \<times> ('db, 'm) dbstate_scheme" where
  "try_reroll E user_id preferred_username w = reroll_loop E 10 user_id preferred_username w"

text \<open>
  \<open>_try_username_patch\<close>. \<open>check_username_usage\<close> may raise. The \<open>try\<close> block updates
  the username and returns the stored discriminator; its handler covers both
  statements and, on \<open>UniqueViolationError\<close>, rerolls with the new username as the
  preferred one and raises \<open>BadRequest\<close> when there is no discriminator (\<open>not discrim\<close>
  holds for \<open>None\<close>; a rerolled string is never empty, but the test is modelled as
  written), else writes username and discriminator with one statement, outside any
  handler.
\<close>

definition username_update :: "('db, 'e) env_scheme \<Rightarrow> int \<Rightarrow> pyval \<Rightarrow> ('db, 'm) dbstate_scheme
    \<Rightarrow> (py_exn + pyval) \<times> ('db, 'm) dbstate_scheme" where
  "username_update E user_id new_username w =
     (case execute E (UpdateUsername new_username user_id) w of
        (Inl e, w1) \<Rightarrow> (Inl e, w1)
      | (Inr u, w1) \<Rightarrow> fetch E (SelectDiscriminator user_id) w1)"

definition try_username_patch :: "('db, 'e) env_scheme \<Rightarrow> int \<Rightarrow> pyval \<Rightarrow> ('db, 'm) dbstate_scheme
    \<Rightarrow> (py_exn + pyval) \<times> ('db, 'm) dbstate_scheme" where
  "try_username_patch E user_id new_username w =
     (case check_username_usage E new_username (db w) of
        Some e \<Rightarrow> (Inl e, w)
      | None \<Rightarrow>
          (case username_update E user_id new_username w of
             (Inr d, w1) \<Rightarrow> (Inr d, w1)
           | (Inl e, w1) \<Rightarrow>
               (if e = UniqueViolationError then
                  (case try_reroll E user_id new_username w1 of
                     (Inl e', w2) \<Rightarrow> (Inl e', w2)
                   | (Inr discrim, w2) \<Rightarrow>
                       (case discrim of
                          None \<Rightarrow> (Inl (BadRequest ''Unable to change username''), w2)
                        | Some d \<Rightarrow>
                            (if d = [] then (Inl (BadRequest ''Unable to change username''), w2)
                             else
                               (case execute E (UpdateUsernameDiscriminator new_username d user_id) w2 of
                                  (Inl e', w3) \<Rightarrow> (Inl e', w3)
                                | (Inr u, w3) \<Rightarrow> (Inr (PStr d), w3)))))
                else (Inl e, w1))))"

text \<open>
  The terms in which the outcome of \<open>_try_reroll\<close> is stated. \<open>nth_discrim E j\<close> is
  the discriminator an attempt makes of the draw number \<open>j\<close> of the generator: its
  decimal string. \<open>reroll_stmt\<close> is the statement the attempt sends with it. \<open>answer\<close>
  is what the database says to it: \<open>None\<close> for a conflict (the \<open>SELECT\<close> finds a row,
  the \<open>UPDATE\<close> raises \<open>UniqueViolationError\<close>), the database it leaves when it accepts
  (the \<open>SELECT\<close> finds no row, the \<open>UPDATE\<close> succeeds), or the exception it raises
  otherwise.
\<close>

definition nth_discrim :: "('db, 'e) env_scheme \<Rightarrow> nat \<Rightarrow> string" where
  "nth_discrim E j = str_int (randint 1 9999 (rand E j))"

definition reroll_stmt :: "int \<Rightarrow> pyval \<Rightarrow> string \<Rightarrow> statement" where
  "reroll_stmt user_id preferred_username d =
     (if truthy preferred_username then SelectExistingUid preferred_username d
      else UpdateDiscriminator d user_id)"

definition answer :: "('db, 'e) env_scheme \<Rightarrow> int \<Rightarrow> pyval \<Rightarrow> string \<Rightarrow> 'db \<Rightarrow> (py_exn + 'db) option" where
  "answer E user_id preferred_username d database =
     (if truthy preferred_username then
        (case db_fetch E (SelectExistingUid preferred_username d) database of
           Inl e \<Rightarrow> Some (Inl e)
         | Inr row \<Rightarrow> (if truthy row then None else Some (Inr database)))
      else
        (case db_execute E (UpdateDiscriminator d user_id) database of
           Inl e \<Rightarrow> (if e = UniqueViolationError then None else Some (Inl e))
         | Inr database' \<Rightarrow> Some (Inr database')))"

text \<open>
  The outcome of a loop of at most \<open>n\<close> attempts that starts in state \<open>w\<close> and ends
  with \<open>r\<close> in state \<open>w'\<close>: the attempts use the draws from \<open>draws w\<close> up to
  \<open>draws w'\<close>, each sends its statement, every attempt but the last meets a conflict,
  and the last one decides: accepted, the loop returns its discriminator; raising, the
  exception is passed on; a conflict as well, all \<open>n\<close> attempts are used up and the
  loop returns \<open>None\<close>.
\<close>

definition reroll_post :: "('db, 'e) env_scheme \<Rightarrow> nat \<Rightarrow> int \<Rightarrow> pyval \<Rightarrow> ('db, 'm) dbstate_scheme
    \<Rightarrow> py_exn + string option \<Rightarrow> ('db, 'm) dbstate_scheme \<Rightarrow> bool" where
  "reroll_post E n user_id p w r w' \<longleftrightarrow>
       draws w \<le> draws w' \<and> draws w' \<le> draws w + n
     \<and> queries w' = queries w @ map (\<lambda>j. reroll_stmt user_id p (nth_discrim E j)) [draws w..<draws w']
     \<and> (case r of
          Inr (Some d) \<Rightarrow>
            draws w < draws w'
            \<and> list_all (\<lambda>j. answer E user_id p (nth_discrim E j) (db w) = None) [draws w..<draws w' - 1]
            \<and> d = nth_discrim E (draws w' - 1)
            \<and> answer E user_id p d (db w) = Some (Inr (db w'))
        | Inr None \<Rightarrow>
            draws w' = draws w + n
            \<and> list_all (\<lambda>j. answer E user_id p (nth_discrim E j) (db w) = None) [draws w..<draws w']
            \<and> db w' = db w
        | Inl e \<Rightarrow>
            draws w < draws w'
            \<and> list_all (\<lambda>j. answer E user_id p (nth_discrim E j) (db w) = None) [draws w..<draws w' - 1]
            \<and> answer E user_id p (nth_discrim E (draws w' - 1)) (db w) = Some (Inl e)
            \<and> db w' = db w)"

subsection \<open>An example database\<close>

text \<open>
  A table of users \<open>(id, username, discriminator)\<close> in which no two rows share username
  and discriminator; the \<open>SELECT\<close> of \<open>_try_reroll\<close> looks a row up by username and
  discriminator. It serves to run the functions on concrete inputs.
\<close>

type_synonym users_table = "(int \<times> string \<times> string) list"

definition unique_names :: "users_table \<Rightarrow> bool" where
  "unique_names t = distinct (map snd t)"

definition checked :: "users_table \<Rightarrow> py_exn + users_table" where
  "checked t = (if unique_names t then Inr t else Inl UniqueViolationError)"

fun table_execute :: "statement \<Rightarrow> users_table \<Rightarrow> py_exn + users_table" where
  "table_execute (UpdateDiscriminator d uid) t =
     checked (map (\<lambda>(i, n, d'). if i = uid then (i, n, d) else (i, n, d')) t)"
| "table_execute (UpdateUsername (PStr n) uid) t =
     checked (map (\<lambda>(i, n', d). if i = uid then (i, n, d) else (i, n', d)) t)"
| "table_execute (UpdateUsernameDiscriminator (PStr n) d uid) t =
     checked (map (\<lambda>(i, n', d'). if i = uid then (i, n, d) else (i, n', d')) t)"
| "table_execute _ t = Inr t"

fun table_fetch :: "statement \<Rightarrow> users_table \<Rightarrow> pyval" where
  "table_fetch (SelectExistingUid p d) t =
     (case find (\<lambda>(i, n', d'). PStr n' = p \<and> d' = d) t of
        None \<Rightarrow> PNone
      | Some (i, n', d') \<Rightarrow> PDict [(''user_id'', PInt i)])"
| "table_fetch (SelectDiscriminator uid) t =
     (case find (\<lambda>(i, n, d). i = uid) t of
        None \<Rightarrow> PNone
      | Some (i, n, d) \<Rightarrow> PStr d)"
| "table_fetch _ t = PNone"

text \<open>The generator of the examples produces 41, 42, 43, ...: the draws are 42, 43, ...\<close>

definition table_env :: "users_table env" where
  "table_env = \<lparr>db_execute = table_execute, db_fetch = (\<lambda>stmt t. Inr (table_fetch stmt t)),
                rand = (\<lambda>k. 41 + k), check_username_usage = (\<lambda>n t. None)\<rparr>"

definition start :: "'db \<Rightarrow> 'db dbstate" where
  "start d = \<lparr>db = d, draws = 0, queries = []\<rparr>"

text \<open>Two users called bob hold 7 and 42; ann holds 7 as well.\<close>

definition table1 :: users_table where
  "table1 = [(1, ''ann'', ''7''), (2, ''bob'', ''7''), (3, ''bob'', ''42'')]"

text \<open>The same database with a generator stuck at 41: every draw is 42.\<close>

definition stuck_env :: "users_table env" where
  "stuck_env = table_env\<lparr>rand := (\<lambda>k. 41)\<rparr>"

text \<open>The same database behind a lost connection: every statement raises.\<close>

definition down_env :: "users_table env" where
  "down_env = table_env\<lparr>db_execute := (\<lambda>stmt t. Inl PostgresError),
                         db_fetch := (\<lambda>stmt t. Inl PostgresError)\<rparr>"



section \<open>litecord/gateway/schemas.py\<close>

text \<open>
  A schema maps field names to rules. The rules of \<open>BASE\<close> and \<open>IDENTIFY_SCHEMA\<close> are
  \<open>type\<close>, \<open>required\<close> (false when absent) and \<open>schema\<close>, the rules of the fields of a
  dictionary. \<open>LitecordValidator\<close> (\<open>litecord/schemas.py\<close>) is the Cerberus validator with
  additional types, none of which these schemas use, so the three rules have their
  Cerberus meaning: a present field has the type of its rule, a required field is
  present, a dictionary with a \<open>schema\<close> satisfies it. Whether a field that the schema
  does not name is accepted is a setting of the validator, the parameter
  \<open>allow_unknown\<close>. The type \<open>number\<close> accepts integers and no booleans; floating-point
  numbers are not among the modelled values.
\<close>

datatype ctype = TNumber | TString | TBoolean | TList | TDict

datatype rule = Rule (rtype: ctype) (required: bool) (subschema: "(string \<times> rule) list option")

type_synonym schema = "(string \<times> rule) list"

fun check_type :: "ctype \<Rightarrow> pyval \<Rightarrow> bool" where
  "check_type TNumber (PInt i) = True"
| "check_type TString (PStr s) = True"
| "check_type TBoolean (PBool b) = True"
| "check_type TList (PList xs) = True"
| "check_type TDict (PDict kvs) = True"
| "check_type _ _ = False"

fun validate_value :: "bool \<Rightarrow> rule \<Rightarrow> pyval \<Rightarrow> bool" where
  "validate_value allow_unknown (Rule t req sub) v =
     (check_type t v \<and>
      (case (sub, v) of
         (Some s, PDict doc) \<Rightarrow>
           list_all (\<lambda>(k, r). case map_of doc k of
                                  None \<Rightarrow> \<not> required r
                                | Some v' \<Rightarrow> validate_value allow_unknown r v') s
           \<and> (allow_unknown \<or> list_all (\<lambda>(k, v'). k \<in> fst ` set s) doc)
       | _ \<Rightarrow> True))"

text \<open>
  \<open>validator.validate(reqjson)\<close>: a document that is not a dictionary raises
  \<open>DocumentError\<close>; a dictionary is checked as a value of type \<open>dict\<close> under the schema.
\<close>

definition validator_validate :: "bool \<Rightarrow> schema \<Rightarrow> pyval \<Rightarrow> py_exn + bool" where
  "validator_validate allow_unknown s reqjson =
     (case reqjson of
        PDict doc \<Rightarrow> Inr (validate_value allow_unknown (Rule TDict True (Some s)) reqjson)
      | _ \<Rightarrow> Inl DocumentError)"

text \<open>
  \<open>validate\<close>: every exception of the validator becomes \<open>DecodeError\<close>, and so does a
  document that is not valid. The result is \<open>validator.document\<close>, the normalized
  document: the three rules above normalize nothing, so it is the document itself.
\<close>

definition validate :: "bool \<Rightarrow> schema \<Rightarrow> pyval \<Rightarrow> py_exn + pyval" where
  "validate allow_unknown s reqjson =
     (case validator_validate allow_unknown s reqjson of
        Inl e \<Rightarrow> Inl DecodeError
      | Inr valid \<Rightarrow> (if \<not> valid then Inl DecodeError else Inr reqjson))"

definition BASE :: schema where
  "BASE = [(''op'', Rule TNumber True None), (''s'', Rule TNumber False None)]"

definition IDENTIFY_SCHEMA :: schema where
  "IDENTIFY_SCHEMA = BASE @
     [(''d'', Rule TDict False (Some
        [(''token'', Rule TString True None),
         (''compress'', Rule TBoolean False None),
         (''large_threshold'', Rule TNumber False None),
         (''shard'', Rule TList False None),
         (''presence'', Rule TDict False None)]))]"

text \<open>Two identify payloads: one without a shard declaration, one with shard 0 of 1.\<close>

definition identify_no_shard :: pyval where
  "identify_no_shard = PDict [(''op'', PInt 2), (''d'', PDict [(''token'', PStr ''abc'')])]"

definition identify_sharded :: pyval where
  "identify_sharded = PDict [(''op'', PInt 2),
     (''d'', PDict [(''token'', PStr ''abc''), (''shard'', PList [PInt 0, PInt 1])])]"


section \<open>The dispatch engine\<close>

text \<open>
  Modelled from the spec: the dispatcher (\<open>app.dispatcher\<close>, the classes that
  \<open>litecord/pubsub/__init__.py\<close> imports) is not among the sources. The definitions of
  this section follow sections 3, 4.1, 4.2 and 5 of the specification: topics, sessions,
  events, the topic registry and the dispatch engine.

  Modelled from the spec: a topic is a pair of a kind and an id.
\<close>

datatype topic_kind = GuildTopic | ChannelTopic | UserTopic | FriendTopic | LazyGuildRangeTopic

type_synonym topic = "topic_kind \<times> int"

text \<open>
  Modelled from the spec: an event is a triple of name, payload and the sequence number
  of the target session at delivery.
\<close>

record event =
  ev_name :: string
  ev_payload :: pyval
  ev_seq :: nat

text \<open>Modelled from the spec: the states of the session protocol.\<close>

datatype conn_state = CONNECTING | IDENTIFYING | RESUMING | READY | INVALID | DISCONNECTED

text \<open>
  Modelled from the spec: a session has an id, an owning user, a sequence number that
  starts at 0 and is incremented once per delivered event, a connection state and an
  ordered outbound queue. \<open>wire\<close> records what the delivery loop has written to the
  connection, that is, what the client has received. Shard and heartbeat timestamp play
  no part in dispatch and are left out.
\<close>

record session =
  session_id :: nat
  owner :: int
  seq :: nat
  conn :: conn_state
  queue :: "event list"
  wire :: "event list"

text \<open>
  Modelled from the spec: the topic registry maps a topic to its subscribed sessions; a
  topic carries no state beyond them, so a topic without subscribers and an absent topic
  are the same. The session registry is the list of sessions; \<open>bound\<close> is the configured
  bound of the outbound queues.
\<close>

record engine =
  registry :: "topic \<Rightarrow> nat list"
  sessions :: "session list"
  bound :: nat

text \<open>Modelled from the spec: the current subscriber set of a topic.\<close>

definition subscribers :: "engine \<Rightarrow> topic \<Rightarrow> nat list" where
  "subscribers e t = registry e t"

text \<open>Modelled from the spec: \<open>subscribe\<close> is idempotent and adds the session.\<close>

definition subscribe :: "topic \<Rightarrow> nat \<Rightarrow> engine \<Rightarrow> engine" where
  "subscribe t sid e =
     (if sid \<in> set (registry e t) then e
      else e\<lparr>registry := (registry e)(t := registry e t @ [sid])\<rparr>)"

text \<open>Modelled from the spec: \<open>unsubscribe\<close> is idempotent and removes the session.\<close>

definition unsubscribe :: "topic \<Rightarrow> nat \<Rightarrow> engine \<Rightarrow> engine" where
  "unsubscribe t sid e = e\<lparr>registry := (registry e)(t := removeAll sid (registry e t))\<rparr>"

text \<open>Modelled from the spec: a closing session releases all its subscriptions.\<close>

definition release :: "nat \<Rightarrow> engine \<Rightarrow> engine" where
  "release sid e = e\<lparr>registry := (\<lambda>t. removeAll sid (registry e t))\<rparr>"

text \<open>
  Modelled from the spec: enqueueing an event on a session stamps it with the
  incremented sequence number. A dead session drops it; a session whose queue is at the
  bound is forcibly disconnected and its queue discarded.
\<close>

definition enqueue :: "nat \<Rightarrow> string \<Rightarrow> pyval \<Rightarrow> session \<Rightarrow> session" where
  "enqueue b name payload s =
     (if conn s = DISCONNECTED then s
      else if b \<le> length (queue s) then s\<lparr>conn := DISCONNECTED, queue := []\<rparr>
      else s\<lparr>seq := Suc (seq s),
             queue := queue s @ [\<lparr>ev_name = name, ev_payload = payload, ev_seq = Suc (seq s)\<rparr>]\<rparr>)"

text \<open>
  Modelled from the spec: delivery to one session id; a session that the delivery
  disconnects has its subscriptions released.
\<close>

definition deliver :: "string \<Rightarrow> pyval \<Rightarrow> nat \<Rightarrow> engine \<Rightarrow> engine" where
  "deliver name payload sid e =
     (let ss = map (\<lambda>s. if session_id s = sid then enqueue (bound e) name payload s else s)
                   (sessions e);
          e1 = e\<lparr>sessions := ss\<rparr>
      in if list_ex (\<lambda>s. session_id s = sid \<and> conn s = DISCONNECTED) ss
         then release sid e1 else e1)"

text \<open>
  Modelled from the spec: \<open>publish\<close> takes a snapshot of the subscribers of the topic and
  enqueues the event on each.
\<close>

definition publish :: "topic_kind \<Rightarrow> int \<Rightarrow> string \<Rightarrow> pyval \<Rightarrow> engine \<Rightarrow> engine" where
  "publish kind i name payload e = fold (deliver name payload) (subscribers e (kind, i)) e"

text \<open>
  Modelled from the spec: \<open>publishMany\<close> collects the subscribers of the given ids and
  removes the duplicates before it enqueues (\<open>dispatch_many\<close> in the code).
\<close>

definition publishMany :: "topic_kind \<Rightarrow> int list \<Rightarrow> string \<Rightarrow> pyval \<Rightarrow> engine \<Rightarrow> engine" where
  "publishMany kind ids name payload e =
     fold (deliver name payload)
          (remdups (concat (map (\<lambda>i. subscribers e (kind, i)) ids))) e"

text \<open>
  Modelled from the spec: \<open>publishToUser\<close> delivers to every session the user owns,
  whatever its subscriptions (\<open>dispatch_user\<close> in the code).
\<close>

definition publishToUser :: "int \<Rightarrow> string \<Rightarrow> pyval \<Rightarrow> engine \<Rightarrow> engine" where
  "publishToUser uid name payload e =
     fold (deliver name payload)
          (remdups (map session_id (filter (\<lambda>s. owner s = uid) (sessions e)))) e"

text \<open>Modelled from the spec: sequential \<open>publish\<close> calls across the given ids.\<close>

definition publish_each :: "topic_kind \<Rightarrow> int list \<Rightarrow> string \<Rightarrow> pyval \<Rightarrow> engine \<Rightarrow> engine" where
  "publish_each kind ids name payload e = fold (\<lambda>i. publish kind i name payload) ids e"

text \<open>
  Modelled from the spec: the delivery loop pops the queued events in enqueue order and
  writes them to the connection.
\<close>

definition drain_session :: "session \<Rightarrow> session" where
  "drain_session s =
     (case queue s of
        [] \<Rightarrow> s
      | ev # rest \<Rightarrow> (if conn s = DISCONNECTED then s
                      else s\<lparr>queue := rest, wire := wire s @ [ev]\<rparr>))"

definition drain :: "nat \<Rightarrow> engine \<Rightarrow> engine" where
  "drain sid e =
     e\<lparr>sessions := map (\<lambda>s. if session_id s = sid then drain_session s else s) (sessions e)\<rparr>"

text \<open>
  Modelled from the spec: a successful identify creates the session with sequence number
  0, subscribes it to the topics of the user and emits the initial snapshot to it.
\<close>

definition identify :: "nat \<Rightarrow> int \<Rightarrow> topic list \<Rightarrow> pyval \<Rightarrow> engine \<Rightarrow> engine" where
  "identify sid uid topics snapshot e =
     (if sid \<in> session_id ` set (sessions e) then e
      else deliver ''READY'' snapshot sid
             (fold (\<lambda>t. subscribe t sid) topics
                (e\<lparr>sessions := sessions e @
                     [\<lparr>session_id = sid, owner = uid, seq = 0, conn = READY,
                       queue = [], wire = []\<rparr>]\<rparr>)))"

text \<open>Modelled from the spec: closing a session discards its queue and its subscriptions.\<close>

definition disconnect :: "nat \<Rightarrow> engine \<Rightarrow> engine" where
  "disconnect sid e =
     release sid
       (e\<lparr>sessions := map (\<lambda>s. if session_id s = sid then s\<lparr>conn := DISCONNECTED, queue := []\<rparr> else s)
                          (sessions e)\<rparr>)"

text \<open>Modelled from the spec: the operations of the engine, and a run of them.\<close>

datatype engine_op =
    Identify nat int "topic list" pyval
  | Subscribe topic nat
  | Unsubscribe topic nat
  | Publish topic_kind int string pyval
  | PublishMany topic_kind "int list" string pyval
  | PublishToUser int string pyval
  | Drain nat
  | Disconnect nat

fun step :: "engine_op \<Rightarrow> engine \<Rightarrow> engine" where
  "step (Identify sid uid topics snapshot) e = identify sid uid topics snapshot e"
| "step (Subscribe t sid) e = subscribe t sid e"
| "step (Unsubscribe t sid) e = unsubscribe t sid e"
| "step (Publish kind i name payload) e = publish kind i name payload e"
| "step (PublishMany kind ids name payload) e = publishMany kind ids name payload e"
| "step (PublishToUser uid name payload) e = publishToUser uid name payload e"
| "step (Drain sid) e = drain sid e"
| "step (Disconnect sid) e = disconnect sid e"

definition run :: "engine_op list \<Rightarrow> engine \<Rightarrow> engine" where
  "run ops e = fold step ops e"

definition new_engine :: "nat \<Rightarrow> engine" where
  "new_engine b = \<lparr>registry = (\<lambda>t. []), sessions = [], bound = b\<rparr>"

definition received :: "engine \<Rightarrow> nat \<Rightarrow> event list" where
  "received e sid = concat (map wire (filter (\<lambda>s. session_id s = sid) (sessions e)))"

text \<open>
  The invariant of a session: the events received carry 1, 2, ... in order, and while the
  session lives the events received and queued are those stamped so far.
\<close>

definition session_ok :: "session \<Rightarrow> bool" where
  "session_ok s =
     (map ev_seq (wire s) = [1..<Suc (length (wire s))]
      \<and> (conn s \<noteq> DISCONNECTED \<longrightarrow> map ev_seq (wire s @ queue s) = [1..<Suc (seq s)]))"

definition engine_ok :: "engine \<Rightarrow> bool" where
  "engine_ok e = (\<forall>s \<in> set (sessions e). session_ok s)"

text \<open>A session id is dead when its session is disconnected.\<close>

definition dead :: "engine \<Rightarrow> nat \<Rightarrow> bool" where
  "dead e x = list_ex (\<lambda>s. session_id s = x \<and> conn s = DISCONNECTED) (sessions e)"

text \<open>Examples: a run with one session, and an engine with three.\<close>

definition ops_example :: "engine_op list" where
  "ops_example =
     [Identify 1 10 [(GuildTopic, 7)] PNone,
      Publish GuildTopic 7 ''MESSAGE_CREATE'' (PStr ''hi''),
      Drain 1, Drain 1,
      Publish GuildTopic 7 ''MESSAGE_CREATE'' (PStr ''ho'')]"

definition session_example :: session where
  "session_example =
     \<lparr>session_id = 1, owner = 10, seq = 3, conn = READY,
      queue = [\<lparr>ev_name = ''MESSAGE_CREATE'', ev_payload = PStr ''ho'', ev_seq = 3\<rparr>],
      wire = [\<lparr>ev_name = ''READY'', ev_payload = PNone, ev_seq = 1\<rparr>,
              \<lparr>ev_name = ''MESSAGE_CREATE'', ev_payload = PStr ''hi'', ev_seq = 2\<rparr>]\<rparr>"

definition fresh :: "nat \<Rightarrow> int \<Rightarrow> session" where
  "fresh sid uid = \<lparr>session_id = sid, owner = uid, seq = 0, conn = READY, queue = [], wire = []\<rparr>"

definition engine_example :: engine where
  "engine_example =
     \<lparr>registry = (\<lambda>t. if t = (GuildTopic, 7) then [1]
                       else if t = (GuildTopic, 8) then [1, 2] else []),
      sessions = [fresh 1 10, fresh 2 11, fresh 3 12],
      bound = 4\<rparr>"


section \<open>litecord/blueprints/users.py: the handlers\<close>

text \<open>
  A call of a method of \<open>app.dispatcher\<close>, as the handler writes it: the name of the
  method and the positional arguments in their order.
\<close>

datatype call = Call (call_name: string) (call_args: "pyval list")

text \<open>
  Modelled from the spec: the dispatcher is not among the sources. The names of the
  topic kinds, as the handlers pass them, stand for the kinds of section 3.
\<close>

definition kind_of_name :: "string \<Rightarrow> topic_kind option" where
  "kind_of_name k =
     (if k = ''guild'' then Some GuildTopic
      else if k = ''channel'' then Some ChannelTopic
      else if k = ''user'' then Some UserTopic
      else if k = ''friend'' then Some FriendTopic
      else if k = ''lazy_guild'' then Some LazyGuildRangeTopic
      else None)"

text \<open>Reading integer ids from the arguments of a call.\<close>

fun int_of :: "pyval \<Rightarrow> int option" where
  "int_of (PInt i) = Some i"
| "int_of _ = None"

fun ints_of :: "pyval list \<Rightarrow> int list option" where
  "ints_of [] = Some []"
| "ints_of (v # vs) =
     (case (int_of v, ints_of vs) of (Some i, Some is) \<Rightarrow> Some (i # is) | _ \<Rightarrow> None)"

text \<open>Modelled from the spec: the sessions a user owns.\<close>

definition sessions_of :: "engine \<Rightarrow> int \<Rightarrow> nat list" where
  "sessions_of e uid = remdups (map session_id (filter (\<lambda>s. owner s = uid) (sessions e)))"

text \<open>
  Modelled from the spec: the handler unsubscribes a user, that is, every session the
  user owns, from a topic.
\<close>

definition unsub :: "topic_kind \<Rightarrow> int \<Rightarrow> int \<Rightarrow> engine \<Rightarrow> engine" where
  "unsub kind i uid e = fold (unsubscribe (kind, i)) (sessions_of e uid) e"

text \<open>
  Modelled from the spec: the methods of the dispatcher that \<open>users.py\<close> calls, in terms
  of the publish contract of section 4.1. \<open>dispatch_user(user_id, event, data)\<close> and
  \<open>dispatch_user_guild(user_id, guild_id, event, data)\<close> deliver to the sessions of the
  user, \<open>dispatch_guild(guild_id, event, data)\<close> publishes to the topic of the guild,
  \<open>dispatch_many(kind, ids, event, data)\<close> is \<open>publishMany\<close>, and
  \<open>unsub(kind, id, user_id)\<close> removes the subscriptions of the user. The target ids come
  first, then the event name, then the payload, as in the calls of \<open>patch_me\<close> and in
  \<open>publish(topicKind, topicId, eventName, payload)\<close>. A call whose arguments do not fit
  the signature raises \<open>TypeError\<close>, as Python does for a missing positional argument.
\<close>

definition dispatcher :: "call \<Rightarrow> engine \<Rightarrow> py_exn + engine" where
  "dispatcher c e =
     (if call_name c = ''dispatch_user'' then
        (case call_args c of
           [PInt uid, PStr ev, data] \<Rightarrow> Inr (publishToUser uid ev data e)
         | _ \<Rightarrow> Inl TypeError)
      else if call_name c = ''dispatch_user_guild'' then
        (case call_args c of
           [PInt uid, PInt gid, PStr ev, data] \<Rightarrow> Inr (publishToUser uid ev data e)
         | _ \<Rightarrow> Inl TypeError)
      else if call_name c = ''dispatch_guild'' then
        (case call_args c of
           [PInt gid, PStr ev, data] \<Rightarrow> Inr (publish GuildTopic gid ev data e)
         | _ \<Rightarrow> Inl TypeError)
      else if call_name c = ''dispatch_many'' then
        (case call_args c of
           [PStr kind, PList ids, PStr ev, data] \<Rightarrow>
             (case (kind_of_name kind, ints_of ids) of
                (Some k, Some is) \<Rightarrow> Inr (publishMany k is ev data e)
              | _ \<Rightarrow> Inl TypeError)
         | _ \<Rightarrow> Inl TypeError)
      else if call_name c = ''unsub'' then
        (case call_args c of
           [PStr kind, PInt i, PInt uid] \<Rightarrow>
             (case kind_of_name kind of
                Some k \<Rightarrow> Inr (unsub k i uid e)
              | None \<Rightarrow> Inl TypeError)
         | _ \<Rightarrow> Inl TypeError)
      else Inl TypeError)"

text \<open>
  The collaborators of the handlers that are not among the sources are parameters:
  \<open>app.storage\<close> (\<open>get_user\<close> with its flag \<open>secure\<close>, \<open>get_user_guilds\<close>,
  \<open>get_friend_ids\<close>, \<open>get_user_settings\<close>), \<open>guild_check\<close> (\<open>blueprints/guilds.py\<close>),
  \<open>check_password\<close> and \<open>hash_data\<close> (\<open>blueprints/auth.py\<close>), and \<open>repr\<close>, what \<open>str\<close>
  gives for a list or a dictionary.
\<close>

record 'db handler_env = "'db env" +
  get_user :: "int \<Rightarrow> bool \<Rightarrow> 'db \<Rightarrow> pyval"
  get_user_guilds :: "int \<Rightarrow> 'db \<Rightarrow> int list"
  get_friend_ids :: "int \<Rightarrow> 'db \<Rightarrow> int list"
  get_user_settings :: "int \<Rightarrow> 'db \<Rightarrow> pyval"
  guild_check :: "int \<Rightarrow> int \<Rightarrow> 'db \<Rightarrow> py_exn option"
  check_password :: "pyval \<Rightarrow> pyval \<Rightarrow> bool"
  hash_data :: "pyval \<Rightarrow> string"
  repr :: "pyval \<Rightarrow> string"

text \<open>
  The state of a handler: the database state, the dispatch engine, and the calls made to
  the dispatcher so far, in order.
\<close>

record 'db world = "'db dbstate" +
  eng :: engine
  calls :: "call list"

text \<open>A response: the body and the status code.\<close>

type_synonym response = "pyval \<times> nat"

text \<open>
  Sequencing: the second step runs in the state the first one left, unless the first
  raised.
\<close>

definition and_then :: "('s \<Rightarrow> (py_exn + 'a) \<times> 's) \<Rightarrow> ('a \<Rightarrow> 's \<Rightarrow> (py_exn + 'b) \<times> 's)
    \<Rightarrow> 's \<Rightarrow> (py_exn + 'b) \<times> 's" where
  "and_then m f s = (case m s of (Inl e, s') \<Rightarrow> (Inl e, s') | (Inr a, s') \<Rightarrow> f a s')"

definition lift :: "py_exn + 'a \<Rightarrow> 's \<Rightarrow> (py_exn + 'a) \<times> 's" where
  "lift r s = (r, s)"

text \<open>\<open>await app.dispatcher.name(*args)\<close>: the call is recorded and acts on the engine.\<close>

definition dispatch :: "string \<Rightarrow> pyval list \<Rightarrow> ('db, 'm) world_scheme
    \<Rightarrow> (py_exn + unit) \<times> ('db, 'm) world_scheme" where
  "dispatch name args w =
     (let w1 = w\<lparr>calls := calls w @ [Call name args]\<rparr>
      in case dispatcher (Call name args) (eng w) of
           Inl e \<Rightarrow> (Inl e, w1)
         | Inr e' \<Rightarrow> (Inr (), w1\<lparr>eng := e'\<rparr>))"

text \<open>
  \<open>leave_guild\<close>. \<open>token_check\<close> is the outcome of \<open>await token_check()\<close>. The three
  dispatcher calls are written with the arguments of the source: the last one,
  \<open>dispatch_guild('GUILD_MEMBER_REMOVE', {...})\<close>, has two arguments, the event name and
  the payload, and no guild id. The payload reads the user after the \<open>unsub\<close>.
\<close>

definition leave_guild :: "('db, 'e) handler_env_scheme \<Rightarrow> py_exn + int \<Rightarrow> int \<Rightarrow> ('db, 'm) world_scheme
    \<Rightarrow> (py_exn + response) \<times> ('db, 'm) world_scheme" where
  "leave_guild E token_check guild_id =
     and_then (lift token_check) (\<lambda>user_id.
     and_then (\<lambda>w. lift (case guild_check E user_id guild_id (db w) of
                           Some e \<Rightarrow> Inl e | None \<Rightarrow> Inr ()) w) (\<lambda>u.
     and_then (execute E (DeleteMember user_id guild_id)) (\<lambda>u.
     and_then (dispatch ''dispatch_user_guild''
                 [PInt user_id, PInt guild_id, PStr ''GUILD_DELETE'',
                  PDict [(''id'', PStr (str_int guild_id)), (''unavailable'', PBool False)]]) (\<lambda>u.
     and_then (dispatch ''unsub'' [PStr ''guild'', PInt guild_id, PInt user_id]) (\<lambda>u.
     and_then (\<lambda>w. dispatch ''dispatch_guild''
                 [PStr ''GUILD_MEMBER_REMOVE'',
                  PDict [(''guild_id'', PStr (str_int guild_id)),
                         (''user'', get_user E user_id False (db w))]] w) (\<lambda>u.
     lift (Inr (PStr [], 204))))))))"

text \<open>
  \<open>patch_current_settings\<close>. \<open>validated\<close> is the outcome of
  \<open>validate(await request.get_json(), USER_SETTINGS)\<close>, whose schema is not among the
  sources. The loop \<open>for key in j\<close> sends one \<open>UPDATE\<close> per key, in the order of the
  dictionary, and stops at the first exception.
\<close>

fun execute_each :: "('db, 'e) env_scheme \<Rightarrow> (string \<times> pyval) list \<Rightarrow> ('db, 'm) dbstate_scheme
    \<Rightarrow> (py_exn + unit) \<times> ('db, 'm) dbstate_scheme" where
  "execute_each E [] = lift (Inr ())"
| "execute_each E ((key, v) # kvs) =
     and_then (execute E (UpdateSetting key v)) (\<lambda>u. execute_each E kvs)"

definition patch_current_settings :: "('db, 'e) handler_env_scheme \<Rightarrow> py_exn + int \<Rightarrow> py_exn + pydict
    \<Rightarrow> ('db, 'm) world_scheme \<Rightarrow> (py_exn + response) \<times> ('db, 'm) world_scheme" where
  "patch_current_settings E token_check validated =
     and_then (lift token_check) (\<lambda>user_id.
     and_then (lift validated) (\<lambda>j.
     and_then (execute_each E j) (\<lambda>u.
     and_then (\<lambda>w. lift (Inr (get_user_settings E user_id (db w))) w) (\<lambda>settings.
     and_then (dispatch ''dispatch_user'' [PInt user_id, PStr ''USER_SETTINGS_UPDATE'', settings]) (\<lambda>u.
     lift (Inr (settings, 200)))))))"

text \<open>Examples: handlers over the example table, and a guild with two members.\<close>

definition table_handlers :: "users_table handler_env" where
  "table_handlers =
     \<lparr>db_execute = table_execute, db_fetch = (\<lambda>stmt t. Inr (table_fetch stmt t)),
      rand = (\<lambda>k. 41 + k),
      check_username_usage = (\<lambda>n t. None),
      get_user = (\<lambda>uid secure t.
         case find (\<lambda>(i, n, d). i = uid) t of
           None \<Rightarrow> PNone
         | Some (i, n, d) \<Rightarrow>
             PDict [(''id'', PStr (str_int i)), (''username'', PStr n), (''discriminator'', PStr d)]),
      get_user_guilds = (\<lambda>uid t. [7, 8]),
      get_friend_ids = (\<lambda>uid t. [2]),
      get_user_settings = (\<lambda>uid t. PDict [(''theme'', PStr ''dark'')]),
      guild_check = (\<lambda>uid gid t. None),
      check_password = (\<lambda>h p. True),
      hash_data = (\<lambda>p. ''hash''),
      repr = (\<lambda>v. ''?'')\<rparr>"

definition guild_engine :: engine where
  "guild_engine =
     \<lparr>registry = (\<lambda>t. if t = (GuildTopic, 7) then [1, 2] else []),
      sessions = [fresh 1 1, fresh 2 2],
      bound = 4\<rparr>"

definition world0 :: "users_table world" where
  "world0 = \<lparr>db = table1, draws = 0, queries = [], eng = guild_engine, calls = []\<rparr>"

text \<open>
  \<open>a == b\<close> on the modelled values: \<open>True\<close> and \<open>False\<close> equal 1 and 0, lists are equal
  element by element, dictionaries when they have the same keys with equal values.
\<close>

fun py_eq :: "pyval \<Rightarrow> pyval \<Rightarrow> bool" where
  "py_eq PNone PNone = True"
| "py_eq (PBool a) (PBool b) = (a = b)"
| "py_eq (PBool a) (PInt b) = ((if a then 1 else 0) = b)"
| "py_eq (PInt a) (PBool b) = (a = (if b then 1 else 0))"
| "py_eq (PInt a) (PInt b) = (a = b)"
| "py_eq (PStr a) (PStr b) = (a = b)"
| "py_eq (PList xs) (PList ys) = list_all2 py_eq xs ys"
| "py_eq (PDict a) (PDict b) =
     (length a = length b
      \<and> list_all (\<lambda>(k, v). case map_of b k of None \<Rightarrow> False | Some v' \<Rightarrow> py_eq v v') a)"
| "py_eq _ _ = False"

text \<open>\<open>d[k] = v\<close> and \<open>d.pop(k)\<close>.\<close>

fun setitem :: "pyval \<Rightarrow> string \<Rightarrow> pyval \<Rightarrow> py_exn + pyval" where
  "setitem (PDict kvs) k v = Inr (PDict (AList.update k v kvs))"
| "setitem _ k v = Inl TypeError"

fun pop :: "pyval \<Rightarrow> string \<Rightarrow> py_exn + pyval" where
  "pop (PDict kvs) k =
     (case map_of kvs k of None \<Rightarrow> Inl KeyError | Some v \<Rightarrow> Inr (PDict (AList.delete k kvs)))"
| "pop _ k = Inl AttributeError"

text \<open>\<open>str(v)\<close>.\<close>

definition py_str :: "('db, 'e) handler_env_scheme \<Rightarrow> pyval \<Rightarrow> string" where
  "py_str E v =
     (case v of
        PStr s \<Rightarrow> s
      | PInt i \<Rightarrow> str_int i
      | PBool b \<Rightarrow> (if b then ''True'' else ''False'')
      | PNone \<Rightarrow> ''None''
      | _ \<Rightarrow> repr E v)"

text \<open>
  \<open>to_update\<close>: \<open>field in j and j[field] and j[field] != user[field]\<close>, as a truth value;
  \<open>user[field]\<close> raises when the user has no such field.
\<close>

definition to_update :: "pydict \<Rightarrow> pyval \<Rightarrow> string \<Rightarrow> py_exn + bool" where
  "to_update j user field =
     (case map_of j field of
        None \<Rightarrow> Inr False
      | Some v \<Rightarrow>
          (if \<not> truthy v then Inr False
           else (case getitem user field of
                   Inl e \<Rightarrow> Inl e
                 | Inr u \<Rightarrow> Inr (\<not> py_eq v u))))"

text \<open>\<open>_check_pass\<close>.\<close>

definition check_pass :: "('db, 'e) handler_env_scheme \<Rightarrow> pydict \<Rightarrow> pyval \<Rightarrow> py_exn + unit" where
  "check_pass E j user =
     (case getitem (PDict j) ''password'' of
        Inl e \<Rightarrow> Inl e
      | Inr pw \<Rightarrow>
          (if \<not> truthy pw then Inl (BadRequest ''password required'')
           else (case getitem user ''password_hash'' of
                   Inl e \<Rightarrow> Inl e
                 | Inr phash \<Rightarrow>
                     (if \<not> check_password E phash pw then Inl (BadRequest ''password incorrect'')
                      else Inr ()))))"

text \<open>\<open>_try_discrim_patch\<close>.\<close>

definition try_discrim_patch :: "('db, 'e) env_scheme \<Rightarrow> int \<Rightarrow> string \<Rightarrow> ('db, 'm) dbstate_scheme
    \<Rightarrow> (py_exn + unit) \<times> ('db, 'm) dbstate_scheme" where
  "try_discrim_patch E user_id new_discrim w =
     (case execute E (PatchDiscriminator new_discrim user_id) w of
        (Inl e, w1) \<Rightarrow>
          (if e = UniqueViolationError then (Inl (BadRequest ''Invalid discriminator''), w1)
           else (Inl e, w1))
      | (Inr u, w1) \<Rightarrow> (Inr (), w1))"

text \<open>
  \<open>patch_me\<close>, block by block: each \<open>if\<close> block takes the dictionary \<open>user\<close> and returns
  it updated.
\<close>

definition patch_username :: "('db, 'e) handler_env_scheme \<Rightarrow> int \<Rightarrow> pydict \<Rightarrow> pyval
    \<Rightarrow> ('db, 'm) world_scheme \<Rightarrow> (py_exn + pyval) \<times> ('db, 'm) world_scheme" where
  "patch_username E user_id j user =
     and_then (lift (to_update j user ''username'')) (\<lambda>t.
       if t then
         and_then (lift (getitem (PDict j) ''username'')) (\<lambda>name.
         and_then (try_username_patch E user_id name) (\<lambda>discrim.
         and_then (lift (setitem user ''username'' name)) (\<lambda>user1.
         lift (setitem user1 ''discriminator'' discrim))))
       else lift (Inr user))"

definition patch_discriminator :: "('db, 'e) handler_env_scheme \<Rightarrow> int \<Rightarrow> pydict \<Rightarrow> pyval
    \<Rightarrow> ('db, 'm) world_scheme \<Rightarrow> (py_exn + pyval) \<times> ('db, 'm) world_scheme" where
  "patch_discriminator E user_id j user =
     and_then (lift (to_update j user ''discriminator'')) (\<lambda>t.
       if t then
         and_then (lift (getitem (PDict j) ''discriminator'')) (\<lambda>d.
         and_then (try_discrim_patch E user_id (py_str E d)) (\<lambda>u.
         lift (setitem user ''discriminator'' (PStr (py_str E d)))))
       else lift (Inr user))"

definition patch_email :: "('db, 'e) handler_env_scheme \<Rightarrow> int \<Rightarrow> pydict \<Rightarrow> pyval
    \<Rightarrow> ('db, 'm) world_scheme \<Rightarrow> (py_exn + pyval) \<times> ('db, 'm) world_scheme" where
  "patch_email E user_id j user =
     and_then (lift (to_update j user ''email'')) (\<lambda>t.
       if t then
         and_then (lift (check_pass E j user)) (\<lambda>u.
         and_then (lift (getitem (PDict j) ''email'')) (\<lambda>email.
         and_then (execute E (UpdateEmail email user_id)) (\<lambda>u.
         lift (setitem user ''email'' email))))
       else lift (Inr user))"

definition patch_password :: "('db, 'e) handler_env_scheme \<Rightarrow> int \<Rightarrow> pydict \<Rightarrow> pyval
    \<Rightarrow> ('db, 'm) world_scheme \<Rightarrow> (py_exn + unit) \<times> ('db, 'm) world_scheme" where
  "patch_password E user_id j user =
     (case map_of j ''new_password'' of
        None \<Rightarrow> lift (Inr ())
      | Some new_password \<Rightarrow>
          (if truthy new_password then
             and_then (lift (check_pass E j user)) (\<lambda>u.
             execute E (UpdatePasswordHash (hash_data E new_password) user_id))
           else lift (Inr ())))"

text \<open>\<open>patch_me\<close> up to the last database statement.\<close>

definition patch_me_updates :: "('db, 'e) handler_env_scheme \<Rightarrow> int \<Rightarrow> pydict
    \<Rightarrow> ('db, 'm) world_scheme \<Rightarrow> (py_exn + pyval) \<times> ('db, 'm) world_scheme" where
  "patch_me_updates E user_id j =
     and_then (\<lambda>w. lift (Inr (get_user E user_id True (db w))) w) (\<lambda>user0.
     and_then (fetch E (SelectPasswordHash user_id)) (\<lambda>ph.
     and_then (lift (setitem user0 ''password_hash'' ph)) (\<lambda>user1.
     and_then (patch_username E user_id j user1) (\<lambda>user2.
     and_then (patch_discriminator E user_id j user2) (\<lambda>user3.
     and_then (patch_email E user_id j user3) (\<lambda>user4.
     and_then (patch_password E user_id j user4) (\<lambda>u.
     lift (Inr user4))))))))"

text \<open>
  \<open>patch_me\<close>: the updates, then \<open>user.pop('password_hash')\<close> and the three dispatcher
  calls. \<open>validated\<close> is the outcome of \<open>validate(await request.get_json(), USER_UPDATE)\<close>.
\<close>

definition patch_me :: "('db, 'e) handler_env_scheme \<Rightarrow> py_exn + int \<Rightarrow> py_exn + pydict
    \<Rightarrow> ('db, 'm) world_scheme \<Rightarrow> (py_exn + response) \<times> ('db, 'm) world_scheme" where
  "patch_me E token_check validated =
     and_then (lift token_check) (\<lambda>user_id.
     and_then (lift validated) (\<lambda>j.
     and_then (patch_me_updates E user_id j) (\<lambda>user0.
     and_then (lift (pop user0 ''password_hash'')) (\<lambda>user.
     and_then (dispatch ''dispatch_user'' [PInt user_id, PStr ''USER_UPDATE'', user]) (\<lambda>u.
     and_then (\<lambda>w. lift (Inr (get_user E user_id False (db w))) w) (\<lambda>public_user.
     and_then (\<lambda>w. lift (Inr (get_user_guilds E user_id (db w))) w) (\<lambda>guild_ids.
     and_then (\<lambda>w. lift (Inr (get_friend_ids E user_id (db w))) w) (\<lambda>friend_ids.
     and_then (dispatch ''dispatch_many''
                 [PStr ''guild'', PList (map PInt guild_ids), PStr ''USER_UPDATE'', public_user]) (\<lambda>u.
     and_then (dispatch ''dispatch_many''
                 [PStr ''friend'', PList (map PInt friend_ids), PStr ''USER_UPDATE'', public_user]) (\<lambda>u.
     lift (Inr (user, 200))))))))))))"

text \<open>A step that leaves the dispatcher alone: it makes no call and keeps the engine.\<close>

definition frame :: "(('db, 'm) world_scheme \<Rightarrow> 'a \<times> ('db, 'm) world_scheme) \<Rightarrow> bool" where
  "frame f = (\<forall>w. calls (snd (f w)) = calls w \<and> eng (snd (f w)) = eng w)"

definition settings_example :: pyval where
  "settings_example = PDict [(''theme'', PStr ''dark'')]"

definition carl :: pyval where
  "carl = PDict [(''id'', PStr ''1''), (''username'', PStr ''carl''), (''discriminator'', PStr ''7'')]"

definition world_settings :: "users_table world" where
  "world_settings =
     \<lparr>db = table1, draws = 0, queries = [UpdateSetting ''theme'' (PStr ''dark'')],
      eng = publishToUser 1 ''USER_SETTINGS_UPDATE'' settings_example guild_engine,
      calls = [Call ''dispatch_user'' [PInt 1, PStr ''USER_SETTINGS_UPDATE'', settings_example]]\<rparr>"

definition world_carl :: "users_table world" where
  "world_carl =
     \<lparr>db = [(1, ''carl'', ''7''), (2, ''bob'', ''7''), (3, ''bob'', ''42'')], draws = 0,
      queries = [SelectPasswordHash 1, UpdateUsername (PStr ''carl'') 1, SelectDiscriminator 1],
      eng = publishMany FriendTopic [2] ''USER_UPDATE'' carl
              (publishMany GuildTopic [7, 8] ''USER_UPDATE'' carl
                 (publishToUser 1 ''USER_UPDATE'' carl guild_engine)),
      calls = [Call ''dispatch_user'' [PInt 1, PStr ''USER_UPDATE'', carl],
               Call ''dispatch_many''
                 [PStr ''guild'', PList [PInt 7, PInt 8], PStr ''USER_UPDATE'', carl],
               Call ''dispatch_many''
                 [PStr ''friend'', PList [PInt 2], PStr ''USER_UPDATE'', carl]]\<rparr>"


section \<open>Properties of the sanitizer\<close>

lemma getitem_exn: "getitem v k = Inl e \<Longrightarrow> e = KeyError \<or> e = TypeError"
  by (cases v) (auto split: option.splits)

lemma getitem_caught: "getitem v k = Inl e \<Longrightarrow> caught e"
  by (auto simp: caught_def dest: getitem_exn)

lemma path_exists_list_frames:
  "path_exists_list frames v cs =
     (if index_path v (take frames cs) = None then Inr False
      else if length cs < frames then Inr True
      else Inl RecursionError)"
proof (induction frames v cs rule: path_exists_list.induct)
  case (1 emb components)
  show ?case by simp
next
  case (2 frames emb)
  show ?case by simp
next
  case (3 frames emb current rest)
  show ?case
  proof (cases "getitem emb current")
    case (Inl e)
    with getitem_caught [OF Inl] show ?thesis by simp
  next
    case (Inr v)
    with 3 [OF Inr] show ?thesis by (simp add: caught_def)
  qed
qed

lemma index_path_nest: "index_path (nest n) (replicate n ''a'') = Some (PInt 1)"
  by (induction n) simp_all

lemma index_path_take:
  "index_path v cs \<noteq> None \<Longrightarrow> index_path v (take n cs) \<noteq> None"
proof (induction cs arbitrary: v n)
  case Nil
  then show ?case by simp
next
  case (Cons c cs)
  then show ?case by (cases n) (auto split: sum.splits)
qed

text \<open>
  C8. \<open>sanitize_embed\<close> maps \<open>type\<close> to \<open>"rich"\<close>, keeps the value of every other key,
  has the keys of the input and \<open>type\<close> and no other, and applying it twice is
  applying it once.
\<close>

theorem sanitize_embed_frame:
  "map_of (sanitize_embed emb) ''type'' = Some (PStr ''rich'')
   \<and> (\<forall>k. k \<noteq> ''type'' \<longrightarrow> map_of (sanitize_embed emb) k = map_of emb k)
   \<and> fst ` set (sanitize_embed emb) = insert ''type'' (fst ` set emb)
   \<and> sanitize_embed (sanitize_embed emb) = sanitize_embed emb"
  by (simp add: sanitize_embed_def update_conv' dom_update)

theorem sanitize_embed_frame_witness:
  "''title'' \<noteq> ''type''
   \<and> map_of (sanitize_embed [(''title'', PStr ''hi''), (''type'', PStr ''link'')]) ''title''
       = Some (PStr ''hi'')
   \<and> map_of (sanitize_embed [(''title'', PStr ''hi''), (''type'', PStr ''link'')]) ''type''
       = Some (PStr ''rich'')"
  using sanitize_embed_frame [of "[(''title'', PStr ''hi''), (''type'', PStr ''link'')]"]
  by simp

text \<open>
  C10, as the claim states it, fails: \<open>path_exists\<close> does not return for every path. With
  a thousand frames left, the whole stack at the default recursion limit, a path of a
  thousand components into a dictionary nested as deep has every lookup succeed, and
  the call raises \<open>RecursionError\<close>, which the handler of the function does not catch.
\<close>

theorem path_exists_recursion_limit:
  "path_exists 1000 (nest 1000) (deep_path 1000) = Inl RecursionError
   \<and> index_path (nest 1000) (components_of (deep_path 1000)) = Some (PInt 1)"
  by (simp add: deep_path_def path_exists_list_frames index_path_nest)

text \<open>
  C10, amended. For every value and every path with fewer components than there are
  frames left, \<open>path_exists\<close> returns, and returns \<open>True\<close> exactly when indexing the
  value by each component in turn succeeds. A lookup that fails within the frames left
  gives \<open>False\<close>, however long the path. With no component the result is \<open>True\<close> for
  every value.
\<close>

theorem path_exists_within_frames:
  "(length (components_of p) < frames \<longrightarrow>
      path_exists frames v p = Inr (index_path v (components_of p) \<noteq> None))
   \<and> (index_path v (take frames (components_of p)) = None \<longrightarrow>
      path_exists frames v p = Inr False)
   \<and> path_exists (Suc frames) v (CList []) = Inr True"
  by (cases p) (auto simp: path_exists_list_frames dest: index_path_take)

theorem path_exists_within_frames_witness:
  "length (components_of (CStr ''footer.icon_url'')) < 1000
   \<and> path_exists 1000 (PDict [(''footer'', PDict [(''icon_url'', PStr ''u'')])]) (CStr ''footer.icon_url'')
       = Inr True
   \<and> index_path (PDict [(''footer'', PStr ''x'')])
         (take 2 (components_of (CList [''footer'', ''icon_url'', ''x'']))) = None
   \<and> path_exists 2 (PDict [(''footer'', PStr ''x'')]) (CList [''footer'', ''icon_url'', ''x''])
       = Inr False"
  using path_exists_within_frames [of "CStr ''footer.icon_url''" 1000 "PDict [(''footer'', PDict [(''icon_url'', PStr ''u'')])]"]
        path_exists_within_frames [of "CList [''footer'', ''icon_url'', ''x'']" 2 "PDict [(''footer'', PStr ''x'')]"]
  by simp


section \<open>Properties of the data URI parser\<close>

lemma length_py_split: "length (py_split sep s) = Suc (count_list s sep)"
  by (induction s) (auto split: list.splits)

lemma unpack2_Inr: "unpack2 xs = Inr (a, b) \<longleftrightarrow> xs = [a, b]"
  by (auto simp: unpack2_def split: list.splits)

lemma unpack2_Inl: "unpack2 xs = Inl e \<Longrightarrow> e = ValueError"
  by (auto simp: unpack2_def split: list.splits)

lemma unpack2_length: "length xs \<noteq> 2 \<Longrightarrow> unpack2 xs = Inl ValueError"
  by (auto simp: unpack2_def split: list.splits)

lemma unpack2_pair: "unpack2 [a, b] = Inr (a, b)"
  by (simp add: unpack2_def)

lemma a2b_loop_exn: "a2b_loop q l p out cs = Inl e \<Longrightarrow> e = BinasciiError"
proof (induction cs arbitrary: q l p out)
  case Nil
  then show ?case by (simp split: if_splits)
next
  case (Cons c cs)
  then show ?case
    by (auto simp: Let_def split: if_splits option.splits)
qed

lemma b64decode_exn: "b64decode d = Inl e \<Longrightarrow> is_ValueError e"
  by (auto simp: b64decode_def a2b_base64_def split: if_splits dest: a2b_loop_exn)

lemma index_of_Some: "x \<in> set ys \<Longrightarrow> \<exists>i. index_of x ys = Some i"
  by (induction ys) auto

lemma index_of_None: "x \<notin> set ys \<Longrightarrow> index_of x ys = None"
  by (induction ys) auto

lemma pad_not_alphabet: "CHR ''='' \<notin> set b64_alphabet"
  by (simp add: b64_alphabet_def)

lemma a2b_loop_alphabet:
  "set cs \<subseteq> set b64_alphabet \<Longrightarrow> q < 4 \<Longrightarrow>
   (\<exists>e. a2b_loop q l p out cs = Inl e) \<longleftrightarrow> (q + length cs) mod 4 \<noteq> 0"
proof (induction cs arbitrary: q l p out)
  case Nil
  then show ?case by simp
next
  case (Cons c cs)
  from Cons.prems have c: "c \<in> set b64_alphabet" and cs: "set cs \<subseteq> set b64_alphabet" by auto
  from c pad_not_alphabet have ne: "c \<noteq> CHR ''=''" by auto
  from index_of_Some [OF c] obtain v where v: "b64_value c = Some v"
    by (auto simp: b64_value_def)
  consider "q = 0" | "q = 1" | "q = 2" | "q = 3" using Cons.prems(2) by linarith
  then show ?case
  proof cases
    case 1
    with Cons.IH [OF cs, of 1] ne v show ?thesis by (simp add: Let_def)
  next
    case 2
    with Cons.IH [OF cs, of 2] ne v show ?thesis by (simp add: Let_def)
  next
    case 3
    with Cons.IH [OF cs, of 3] ne v show ?thesis by (simp add: Let_def)
  next
    case 4
    with Cons.IH [OF cs, of 0] ne v show ?thesis by (simp add: Let_def mod_Suc)
  qed
qed

lemma a2b_loop_skip:
  "set cs \<inter> set b64_alphabet = {} \<Longrightarrow> a2b_loop 0 l p out cs = Inr out"
proof (induction cs arbitrary: l p)
  case Nil
  show ?case by simp
next
  case (Cons c cs)
  then have "b64_value c = None" by (simp add: b64_value_def index_of_None)
  with Cons show ?case by simp
qed

lemma alphabet_ascii: "c \<in> set b64_alphabet \<Longrightarrow> is_ascii c"
  by (auto simp: b64_alphabet_def is_ascii_def)

lemma b64decode_alphabet:
  assumes "set data \<subseteq> set b64_alphabet"
  shows "(\<exists>e. b64decode data = Inl e) \<longleftrightarrow> length data mod 4 \<noteq> 0"
proof -
  from assms have "list_all is_ascii data"
    by (auto simp: list_all_iff intro: alphabet_ascii)
  with a2b_loop_alphabet [OF assms, of 0 0 0 "[]"] show ?thesis
    by (simp add: b64decode_def a2b_base64_def)
qed

lemma b64decode_non_ascii: "\<not> list_all is_ascii data \<Longrightarrow> b64decode data = Inl ValueError"
  by (simp add: b64decode_def)

lemma parse_try_exn:
  assumes "parse_data_uri_try s = Inl e"
  shows "is_ValueError e \<or> e = ImageError ''Unknown data header''"
proof -
  have u: "\<And>(xs :: string list) e. unpack2 xs = Inl e \<Longrightarrow> is_ValueError e"
    by (auto dest: unpack2_Inl)
  show ?thesis
    using assms
    by (auto simp: parse_data_uri_try_def to_raw_def
        split: sum.splits option.splits if_splits prod.splits dest: u b64decode_exn)
qed

lemma parse_try_Inr:
  "parse_data_uri_try s = Inr (mime, raw) \<longleftrightarrow>
     (\<exists>header rest u data. py_split CHR '';'' s = [header, rest]
        \<and> py_split CHR '':'' header = [u, mime]
        \<and> py_split CHR '','' rest = [''base64'', data]
        \<and> b64decode data = Inr raw)"
  by (auto simp: parse_data_uri_try_def to_raw_def unpack2_Inr unpack2_pair
      split: sum.splits option.splits if_splits prod.splits)

lemma parse_outcome:
  "(\<exists>msg. parse_data_uri s = Inl (ImageError msg)) \<or> (\<exists>mime raw. parse_data_uri s = Inr (mime, raw))"
proof (cases "parse_data_uri_try s")
  case (Inl e)
  with parse_try_exn [OF Inl] show ?thesis
    by (auto simp: parse_data_uri_def)
next
  case (Inr r)
  then show ?thesis by (cases r) (simp add: parse_data_uri_def)
qed

lemma parse_Inr:
  "parse_data_uri s = Inr (mime, raw) \<longleftrightarrow> parse_data_uri_try s = Inr (mime, raw)"
  by (auto simp: parse_data_uri_def split: sum.splits)

lemma parse_semicolons:
  "count_list s CHR '';'' \<noteq> 1 \<Longrightarrow> parse_data_uri s = Inl (ImageError ''data URI invalid syntax'')"
proof -
  assume "count_list s CHR '';'' \<noteq> 1"
  then have "length (py_split CHR '';'' s) \<noteq> 2" by (simp add: length_py_split)
  then show ?thesis
    by (simp add: parse_data_uri_def parse_data_uri_try_def unpack2_length)
qed

lemma parse_separators:
  assumes "py_split CHR '';'' s = [header, rest]"
      and "count_list header CHR '':'' \<noteq> 1 \<or> count_list rest CHR '','' \<noteq> 1"
  shows "parse_data_uri s = Inl (ImageError ''data URI invalid syntax'')"
proof (cases "count_list header CHR '':'' \<noteq> 1")
  case True
  then have "length (py_split CHR '':'' header) \<noteq> 2" by (simp add: length_py_split)
  with assms(1) show ?thesis
    by (simp add: parse_data_uri_def parse_data_uri_try_def unpack2_length unpack2_pair)
next
  case False
  then have "length (py_split CHR '':'' header) = 2" by (simp add: length_py_split)
  then obtain u m where h: "py_split CHR '':'' header = [u, m]"
    by (cases "py_split CHR '':'' header" rule: list.exhaust)
       (auto simp: length_Suc_conv)
  from False assms(2) have "length (py_split CHR '','' rest) \<noteq> 2" by (simp add: length_py_split)
  with assms(1) h show ?thesis
    by (simp add: parse_data_uri_def parse_data_uri_try_def unpack2_length unpack2_pair)
qed

lemma parse_header:
  assumes "py_split CHR '';'' s = [header, rest]"
      and "py_split CHR '':'' header = [u, m]"
      and "py_split CHR '','' rest = [data_type, data]"
      and "data_type \<noteq> ''base64''"
  shows "parse_data_uri s = Inl (ImageError ''Unknown data header'')"
  using assms
  by (simp add: parse_data_uri_def parse_data_uri_try_def unpack2_pair to_raw_def)

lemma parse_rejected:
  assumes "py_split CHR '';'' s = [header, rest]"
      and "py_split CHR '':'' header = [u, m]"
      and "py_split CHR '','' rest = [''base64'', data]"
      and "b64decode data = Inl e"
  shows "parse_data_uri s = Inl (ImageError ''data URI invalid syntax'')"
  using assms b64decode_exn [OF assms(4)]
  by (simp add: parse_data_uri_def parse_data_uri_try_def unpack2_pair to_raw_def)

text \<open>
  C9, as the claim states it, fails: invalid base64 content does not always raise. The
  data \<open>!!!!\<close> has no character of the base64 alphabet; the decoder discards all four
  and \<open>parse_data_uri\<close> returns the mime type with no bytes.
\<close>

theorem parse_data_uri_discards:
  "parse_data_uri ''data:image/png;base64,!!!!'' = Inr (''image/png'', [])"
  by (simp add: parse_data_uri_def parse_data_uri_try_def unpack2_def to_raw_def
      b64decode_def a2b_base64_def is_ascii_def b64_value_def b64_alphabet_def)

text \<open>
  C9, amended. \<open>parse_data_uri\<close> raises \<open>ImageError\<close> or returns a pair, never a
  \<open>ValueError\<close>. It returns \<open>(mime, raw)\<close> exactly when the string has one \<open>;\<close>, its
  header one \<open>:\<close> followed by \<open>mime\<close>, its data part is \<open>base64\<close>, one comma and data
  that the decoder turns into \<open>raw\<close>. A string with another number of \<open>;\<close>, a header
  with another number of \<open>:\<close>, a data part with another number of commas raise
  \<open>ImageError\<close>; so do a data type other than \<open>base64\<close> and data that the decoder
  rejects, which it does for a character outside ASCII and for characters of the
  alphabet whose number is not a multiple of four.
\<close>

theorem parse_data_uri_outcome:
  "((\<exists>msg. parse_data_uri s = Inl (ImageError msg))
      \<or> (\<exists>mime raw. parse_data_uri s = Inr (mime, raw)))
   \<and> (parse_data_uri s = Inr (mime, raw) \<longleftrightarrow>
        (\<exists>header rest u data. py_split CHR '';'' s = [header, rest]
           \<and> py_split CHR '':'' header = [u, mime]
           \<and> py_split CHR '','' rest = [''base64'', data]
           \<and> b64decode data = Inr raw))
   \<and> (count_list s CHR '';'' \<noteq> 1 \<longrightarrow>
        parse_data_uri s = Inl (ImageError ''data URI invalid syntax''))
   \<and> (py_split CHR '';'' s = [header, rest]
        \<and> (count_list header CHR '':'' \<noteq> 1 \<or> count_list rest CHR '','' \<noteq> 1) \<longrightarrow>
        parse_data_uri s = Inl (ImageError ''data URI invalid syntax''))
   \<and> (py_split CHR '';'' s = [header, rest] \<and> py_split CHR '':'' header = [u, m]
        \<and> py_split CHR '','' rest = [data_type, data] \<and> data_type \<noteq> ''base64'' \<longrightarrow>
        parse_data_uri s = Inl (ImageError ''Unknown data header''))
   \<and> (py_split CHR '';'' s = [header, rest] \<and> py_split CHR '':'' header = [u, m]
        \<and> py_split CHR '','' rest = [''base64'', data]
        \<and> (\<not> list_all is_ascii data
             \<or> set data \<subseteq> set b64_alphabet \<and> length data mod 4 \<noteq> 0
             \<or> (\<exists>e. b64decode data = Inl e)) \<longrightarrow>
        parse_data_uri s = Inl (ImageError ''data URI invalid syntax''))"
proof (intro conjI impI)
  show "(\<exists>msg. parse_data_uri s = Inl (ImageError msg))
      \<or> (\<exists>mime raw. parse_data_uri s = Inr (mime, raw))"
    by (rule parse_outcome)
next
  show "parse_data_uri s = Inr (mime, raw) \<longleftrightarrow>
        (\<exists>header rest u data. py_split CHR '';'' s = [header, rest]
           \<and> py_split CHR '':'' header = [u, mime]
           \<and> py_split CHR '','' rest = [''base64'', data]
           \<and> b64decode data = Inr raw)"
    by (simp only: parse_Inr parse_try_Inr)
next
  assume "count_list s CHR '';'' \<noteq> 1"
  then show "parse_data_uri s = Inl (ImageError ''data URI invalid syntax'')"
    by (rule parse_semicolons)
next
  assume "py_split CHR '';'' s = [header, rest]
        \<and> (count_list header CHR '':'' \<noteq> 1 \<or> count_list rest CHR '','' \<noteq> 1)"
  then show "parse_data_uri s = Inl (ImageError ''data URI invalid syntax'')"
    using parse_separators by blast
next
  assume "py_split CHR '';'' s = [header, rest] \<and> py_split CHR '':'' header = [u, m]
        \<and> py_split CHR '','' rest = [data_type, data] \<and> data_type \<noteq> ''base64''"
  then show "parse_data_uri s = Inl (ImageError ''Unknown data header'')"
    using parse_header by blast
next
  assume a: "py_split CHR '';'' s = [header, rest] \<and> py_split CHR '':'' header = [u, m]
        \<and> py_split CHR '','' rest = [''base64'', data]
        \<and> (\<not> list_all is_ascii data
             \<or> set data \<subseteq> set b64_alphabet \<and> length data mod 4 \<noteq> 0
             \<or> (\<exists>e. b64decode data = Inl e))"
  then have "\<exists>e. b64decode data = Inl e"
    using b64decode_non_ascii [of data] b64decode_alphabet [of data] by blast
  with a show "parse_data_uri s = Inl (ImageError ''data URI invalid syntax'')"
    using parse_rejected by blast
qed

lemma split_png:
  "py_split CHR '';'' ''data:image/png;base64,aGk='' = [''data:image/png'', ''base64,aGk='']"
  "py_split CHR '';'' ''data:image/png;base64,aGk'' = [''data:image/png'', ''base64,aGk'']"
  "py_split CHR '';'' ''data:image/png;hex,6869'' = [''data:image/png'', ''hex,6869'']"
  "py_split CHR '':'' ''data:image/png'' = [''data'', ''image/png'']"
  "py_split CHR '','' ''base64,aGk='' = [''base64'', ''aGk='']"
  "py_split CHR '','' ''base64,aGk'' = [''base64'', ''aGk'']"
  "py_split CHR '','' ''hex,6869'' = [''hex'', ''6869'']"
  by simp_all

lemma b64decode_hi: "b64decode ''aGk='' = Inr [104, 105]"
  by (simp add: b64decode_def a2b_base64_def is_ascii_def b64_value_def b64_alphabet_def)

theorem parse_data_uri_outcome_witness:
  "parse_data_uri ''data:image/png;base64,aGk='' = Inr (''image/png'', [104, 105])
   \<and> count_list ''data:image/png'' CHR '';'' \<noteq> 1
   \<and> parse_data_uri ''data:image/png'' = Inl (ImageError ''data URI invalid syntax'')
   \<and> set ''aGk'' \<subseteq> set b64_alphabet \<and> length ''aGk'' mod 4 \<noteq> 0
   \<and> parse_data_uri ''data:image/png;base64,aGk'' = Inl (ImageError ''data URI invalid syntax'')
   \<and> ''hex'' \<noteq> ''base64''
   \<and> parse_data_uri ''data:image/png;hex,6869'' = Inl (ImageError ''Unknown data header'')"
proof -
  have a: "set ''aGk'' \<subseteq> set b64_alphabet" "length ''aGk'' mod 4 \<noteq> 0"
    by (simp_all add: b64_alphabet_def)
  have "parse_data_uri ''data:image/png;base64,aGk='' = Inr (''image/png'', [104, 105])"
    using parse_data_uri_outcome [where s = "''data:image/png;base64,aGk=''"
            and mime = "''image/png''" and raw = "[104, 105]"]
    by (simp add: split_png b64decode_hi)
  moreover have "parse_data_uri ''data:image/png'' = Inl (ImageError ''data URI invalid syntax'')"
    using parse_data_uri_outcome [where s = "''data:image/png''"]
    by simp
  moreover have "parse_data_uri ''data:image/png;base64,aGk'' = Inl (ImageError ''data URI invalid syntax'')"
    using parse_data_uri_outcome [where s = "''data:image/png;base64,aGk''"
            and header = "''data:image/png''" and rest = "''base64,aGk''" and u = "''data''"
            and m = "''image/png''" and data = "''aGk''"] a
    by (simp add: split_png)
  moreover have "parse_data_uri ''data:image/png;hex,6869'' = Inl (ImageError ''Unknown data header'')"
    using parse_data_uri_outcome [where s = "''data:image/png;hex,6869''"
            and header = "''data:image/png''" and rest = "''hex,6869''" and u = "''data''"
            and m = "''image/png''" and data_type = "''hex''" and data = "''6869''"]
    by (simp add: split_png)
  ultimately show ?thesis using a by simp
qed


section \<open>Properties of the discriminator reroll\<close>

lemma randint_range: "a \<le> b \<Longrightarrow> a \<le> randint a b raw \<and> randint a b raw \<le> b"
proof -
  assume ab: "a \<le> b"
  then have pos: "0 < nat (b - a + 1)" by simp
  have "raw mod nat (b - a + 1) < nat (b - a + 1)"
    using pos by (rule mod_less_divisor)
  then have "int (raw mod nat (b - a + 1)) < b - a + 1" using ab by linarith
  then show ?thesis by (simp add: randint_def)
qed

lemma nth_discrim_range: "\<exists>n. 1 \<le> n \<and> n \<le> 9999 \<and> nth_discrim E j = str_int n"
  using randint_range [of 1 9999 "rand E j"] by (auto simp: nth_discrim_def)

lemma reroll_post_stop:
  assumes "draws w' = Suc (draws w)"
      and "queries w' = queries w @ [reroll_stmt user_id p (nth_discrim E (draws w))]"
      and "case r of
             Inr (Some d) \<Rightarrow> d = nth_discrim E (draws w)
                 \<and> answer E user_id p d (db w) = Some (Inr (db w'))
           | Inr None \<Rightarrow> False
           | Inl e \<Rightarrow> answer E user_id p (nth_discrim E (draws w)) (db w) = Some (Inl e)
                 \<and> db w' = db w"
  shows "reroll_post E (Suc n) user_id p w r w'"
  using assms
  by (auto simp: reroll_post_def split: sum.splits option.splits)

lemma list_all_upt_Cons:
  assumes "P a" and "list_all P [Suc a..<b]"
  shows "list_all P [a..<b]"
proof -
  have "P j" if "a \<le> j" "j < b" for j
  proof (cases "j = a")
    case True
    with assms(1) show ?thesis by simp
  next
    case False
    with that have "Suc a \<le> j" by simp
    with assms(2) that show ?thesis by (simp add: list_all_iff)
  qed
  then show ?thesis by (simp add: list_all_iff)
qed

lemma reroll_post_continue:
  assumes c: "answer E user_id p (nth_discrim E (draws w)) (db w) = None"
      and d: "draws w2 = Suc (draws w)" "db w2 = db w"
      and q: "queries w2 = queries w @ [reroll_stmt user_id p (nth_discrim E (draws w))]"
      and r: "reroll_post E n user_id p w2 r w'"
  shows "reroll_post E (Suc n) user_id p w r w'"
proof -
  let ?P = "\<lambda>j. answer E user_id p (nth_discrim E j) (db w) = None"
  from r d have le: "Suc (draws w) \<le> draws w'" by (simp add: reroll_post_def del: upt_Suc)
  then have "[draws w..<draws w'] = draws w # [Suc (draws w)..<draws w']"
    by (simp add: upt_conv_Cons)
  with r d q have qs: "queries w' = queries w @ map (\<lambda>j. reroll_stmt user_id p (nth_discrim E j)) [draws w..<draws w']"
    by (simp add: reroll_post_def del: upt_Suc)
  from r d le have b: "draws w \<le> draws w'" "draws w' \<le> draws w + Suc n"
    by (auto simp add: reroll_post_def simp del: upt_Suc)
  show ?thesis
  proof (cases r)
    case (Inl e)
    with r d have x: "Suc (draws w) < draws w'" "list_all ?P [Suc (draws w)..<draws w' - 1]"
        "answer E user_id p (nth_discrim E (draws w' - 1)) (db w) = Some (Inl e)" "db w' = db w"
      by (auto simp add: reroll_post_def simp del: upt_Suc)
    from list_all_upt_Cons [of ?P, OF c x(2)] x qs b Inl show ?thesis
      by (simp add: reroll_post_def del: upt_Suc)
  next
    case (Inr opt)
    show ?thesis
    proof (cases opt)
      case None
      with r d Inr have x: "draws w' = draws w + Suc n" "list_all ?P [Suc (draws w)..<draws w']"
          "db w' = db w"
        by (auto simp add: reroll_post_def simp del: upt_Suc)
      from list_all_upt_Cons [of ?P, OF c x(2)] x qs b Inr None show ?thesis
        by (simp add: reroll_post_def del: upt_Suc)
    next
      case (Some y)
      with r d Inr have x: "Suc (draws w) < draws w'" "list_all ?P [Suc (draws w)..<draws w' - 1]"
          "y = nth_discrim E (draws w' - 1)" "answer E user_id p y (db w) = Some (Inr (db w'))"
        by (auto simp add: reroll_post_def simp del: upt_Suc)
      from list_all_upt_Cons [of ?P, OF c x(2)] x qs b Inr Some show ?thesis
        by (simp add: reroll_post_def del: upt_Suc)
    qed
  qed
qed

lemma reroll_loop_post:
  "reroll_loop E n user_id p w = (r, w') \<Longrightarrow> reroll_post E n user_id p w r w'"
proof (induction n arbitrary: w)
  case 0
  then show ?case by (auto simp: reroll_post_def)
next
  case (Suc n)
  let ?d = "nth_discrim E (draws w)"
  let ?w1 = "w\<lparr>draws := Suc (draws w)\<rparr>"
  show ?case
  proof (cases "truthy p")
    case True
    let ?w2 = "?w1\<lparr>queries := queries w @ [SelectExistingUid p ?d]\<rparr>"
    have f: "fetch E (SelectExistingUid p ?d) ?w1 = (db_fetch E (SelectExistingUid p ?d) (db w), ?w2)"
      by (simp add: fetch_def)
    show ?thesis
    proof (cases "db_fetch E (SelectExistingUid p ?d) (db w)")
      case (Inl e)
      with Suc.prems True f have "r = Inl e" "w' = ?w2"
        by (simp_all add: draw_randint_def Let_def nth_discrim_def)
      with True Inl show ?thesis
        by (intro reroll_post_stop) (simp_all add: reroll_stmt_def answer_def)
    next
      case (Inr row)
      show ?thesis
      proof (cases "truthy row")
        case False
        with Suc.prems True f Inr have "r = Inr (Some ?d)" "w' = ?w2"
          by (simp_all add: draw_randint_def Let_def nth_discrim_def)
        with True Inr False show ?thesis
          by (intro reroll_post_stop) (simp_all add: reroll_stmt_def answer_def)
      next
        case t: True
        with Suc.prems True f Inr have "reroll_loop E n user_id p ?w2 = (r, w')"
          by (simp add: draw_randint_def Let_def nth_discrim_def)
        from Suc.IH [OF this] True Inr t show ?thesis
          by (intro reroll_post_continue [where ?w2.0 = ?w2])
             (simp_all add: reroll_stmt_def answer_def)
      qed
    qed
  next
    case False
    let ?w2 = "?w1\<lparr>queries := queries w @ [UpdateDiscriminator ?d user_id]\<rparr>"
    show ?thesis
    proof (cases "db_execute E (UpdateDiscriminator ?d user_id) (db w)")
      case (Inr d')
      then have "execute E (UpdateDiscriminator ?d user_id) ?w1 = (Inr (), ?w2\<lparr>db := d'\<rparr>)"
        by (simp add: execute_def)
      with Suc.prems False have "r = Inr (Some ?d)" "w' = ?w2\<lparr>db := d'\<rparr>"
        by (simp_all add: draw_randint_def Let_def nth_discrim_def)
      with False Inr show ?thesis
        by (intro reroll_post_stop) (simp_all add: reroll_stmt_def answer_def)
    next
      case (Inl e)
      then have x: "execute E (UpdateDiscriminator ?d user_id) ?w1 = (Inl e, ?w2)"
        by (simp add: execute_def)
      show ?thesis
      proof (cases "e = UniqueViolationError")
        case True
        with Suc.prems False x have "reroll_loop E n user_id p ?w2 = (r, w')"
          by (simp add: draw_randint_def Let_def nth_discrim_def)
        from Suc.IH [OF this] False Inl True show ?thesis
          by (intro reroll_post_continue [where ?w2.0 = ?w2])
             (simp_all add: reroll_stmt_def answer_def)
      next
        case ne: False
        with Suc.prems False x have "r = Inl e" "w' = ?w2"
          by (simp_all add: draw_randint_def Let_def nth_discrim_def)
        with False Inl ne show ?thesis
          by (intro reroll_post_stop) (simp_all add: reroll_stmt_def answer_def)
      qed
    qed
  qed
qed

text \<open>
  C5, as the claim states it, fails: \<open>_try_reroll\<close> does not always return a
  discriminator or \<open>None\<close>. Behind a lost connection the first statement raises, the
  \<open>UPDATE\<close> with no preferred username and the \<open>SELECT\<close> with one, and the exception
  leaves the function after one attempt.
\<close>

theorem try_reroll_raises:
  "try_reroll down_env 1 PNone (start table1)
     = (Inl PostgresError, \<lparr>db = table1, draws = 1, queries = [UpdateDiscriminator ''42'' 1]\<rparr>)
   \<and> try_reroll down_env 1 (PStr ''bob'') (start table1)
     = (Inl PostgresError,
        \<lparr>db = table1, draws = 1, queries = [SelectExistingUid (PStr ''bob'') ''42'']\<rparr>)"
proof -
  have s: "str_int 42 = ''42''"
    by (simp add: str_int_def str_nat.simps digit_char_def)
  have r: "randint 1 9999 41 = 42" by (simp add: randint_def)
  have "reroll_loop down_env (Suc 9) 1 PNone \<lparr>db = table1, draws = 0, queries = []\<rparr>
          = (Inl PostgresError, \<lparr>db = table1, draws = 1, queries = [UpdateDiscriminator ''42'' 1]\<rparr>)"
    apply (simp only: reroll_loop.simps)
    apply (simp add: draw_randint_def execute_def Let_def down_env_def table_env_def s r)
    done
  moreover
  have "reroll_loop down_env (Suc 9) 1 (PStr ''bob'') \<lparr>db = table1, draws = 0, queries = []\<rparr>
          = (Inl PostgresError,
             \<lparr>db = table1, draws = 1, queries = [SelectExistingUid (PStr ''bob'') ''42'']\<rparr>)"
    apply (simp only: reroll_loop.simps)
    apply (simp add: draw_randint_def fetch_def Let_def down_env_def table_env_def s r)
    done
  ultimately show ?thesis
    by (simp add: try_reroll_def start_def)
qed

lemma try_reroll_post:
  assumes "try_reroll E user_id preferred_username w = (r, w')"
  shows "draws w < draws w' \<and> draws w' \<le> draws w + 10
       \<and> queries w' = queries w
            @ map (\<lambda>j. reroll_stmt user_id preferred_username (nth_discrim E j)) [draws w..<draws w']
       \<and> list_all (\<lambda>j. answer E user_id preferred_username (nth_discrim E j) (db w) = None)
            [draws w..<draws w' - 1]
       \<and> (case r of
            Inr (Some d) \<Rightarrow>
              d = nth_discrim E (draws w' - 1)
              \<and> (\<exists>n. 1 \<le> n \<and> n \<le> 9999 \<and> d = str_int n)
              \<and> answer E user_id preferred_username d (db w) = Some (Inr (db w'))
          | Inr None \<Rightarrow>
              draws w' = draws w + 10
              \<and> answer E user_id preferred_username (nth_discrim E (draws w' - 1)) (db w) = None
              \<and> db w' = db w
          | Inl e \<Rightarrow>
              answer E user_id preferred_username (nth_discrim E (draws w' - 1)) (db w) = Some (Inl e)
              \<and> db w' = db w)"
proof -
  from assms have p: "reroll_post E 10 user_id preferred_username w r w'"
    by (simp add: try_reroll_def reroll_loop_post)
  show ?thesis
  proof (cases r)
    case (Inl e)
    with p show ?thesis by (simp add: reroll_post_def)
  next
    case (Inr opt)
    show ?thesis
    proof (cases opt)
      case None
      with p Inr have x: "draws w' = draws w + 10" "db w' = db w"
          "list_all (\<lambda>j. answer E user_id preferred_username (nth_discrim E j) (db w) = None)
             [draws w..<draws w']"
          "queries w' = queries w
            @ map (\<lambda>j. reroll_stmt user_id preferred_username (nth_discrim E j)) [draws w..<draws w']"
        by (auto simp add: reroll_post_def simp del: upt_Suc)
      from x(1,3) have "list_all (\<lambda>j. answer E user_id preferred_username (nth_discrim E j) (db w) = None)
             [draws w..<draws w' - 1]"
        "answer E user_id preferred_username (nth_discrim E (draws w' - 1)) (db w) = None"
        by (simp_all add: list_all_iff)
      with x Inr None show ?thesis by (simp del: upt_Suc)
    next
      case (Some d)
      with p Inr nth_discrim_range [of E "draws w' - 1"] show ?thesis
        by (auto simp add: reroll_post_def)
    qed
  qed
qed

text \<open>
  C5, amended. For every user id and every preferred username (a string or \<open>None\<close>),
  \<open>_try_reroll\<close> makes at least one attempt and at most ten, each with the next draw of
  the generator and one statement carrying its decimal string. Every attempt but the
  last meets a conflict. The last attempt decides the outcome: when the database
  accepts it, the function returns its discriminator, the string of an integer from 1
  to 9999; when it meets a conflict too, it is the tenth and the function returns
  \<open>None\<close>; when the database raises another exception, the function passes it on.
\<close>

theorem try_reroll_outcome:
  "case try_reroll E user_id preferred_username w of (r, w') \<Rightarrow>
       draws w < draws w' \<and> draws w' \<le> draws w + 10
     \<and> queries w' = queries w
          @ map (\<lambda>j. reroll_stmt user_id preferred_username (nth_discrim E j)) [draws w..<draws w']
     \<and> list_all (\<lambda>j. answer E user_id preferred_username (nth_discrim E j) (db w) = None)
          [draws w..<draws w' - 1]
     \<and> (case r of
          Inr (Some d) \<Rightarrow>
            d = nth_discrim E (draws w' - 1)
            \<and> (\<exists>n. 1 \<le> n \<and> n \<le> 9999 \<and> d = str_int n)
            \<and> answer E user_id preferred_username d (db w) = Some (Inr (db w'))
        | Inr None \<Rightarrow>
            draws w' = draws w + 10
            \<and> answer E user_id preferred_username (nth_discrim E (draws w' - 1)) (db w) = None
            \<and> db w' = db w
        | Inl e \<Rightarrow>
            answer E user_id preferred_username (nth_discrim E (draws w' - 1)) (db w) = Some (Inl e)
            \<and> db w' = db w)"
proof -
  obtain r w' where rw: "try_reroll E user_id preferred_username w = (r, w')"
    by (cases "try_reroll E user_id preferred_username w")
  from try_reroll_post [OF rw] show ?thesis
    unfolding rw by simp
qed




lemma str_42: "str_int 42 = ''42''" "str_int 43 = ''43''"
  by (simp_all add: str_int_def str_nat.simps digit_char_def)

lemma draw_table: "randint 1 9999 41 = 42" "randint 1 9999 42 = 43"
  by (simp_all add: randint_def)

lemma nth_discrim_table:
  "nth_discrim table_env 0 = ''42''" "nth_discrim table_env (Suc 0) = ''43''"
  by (simp_all add: nth_discrim_def table_env_def str_42 draw_table)

lemma fetch_table1:
  "db_fetch table_env (SelectExistingUid (PStr ''bob'') ''42'') table1 = Inr (PDict [(''user_id'', PInt 3)])"
  "db_fetch table_env (SelectExistingUid (PStr ''bob'') ''43'') table1 = Inr PNone"
  by (simp_all add: table_env_def table1_def)

lemma rand_table: "rand table_env k = 41 + k"
  by (simp add: table_env_def)

lemma reroll_table1:
  "try_reroll table_env 1 (PStr ''bob'')
     ((start table1)\<lparr>queries := queries (start table1) @ [UpdateUsername (PStr ''bob'') 1]\<rparr>)
   = (Inr (Some ''43''),
      \<lparr>db = table1, draws = 2,
       queries = [UpdateUsername (PStr ''bob'') 1,
                  SelectExistingUid (PStr ''bob'') ''42'',
                  SelectExistingUid (PStr ''bob'') ''43'']\<rparr>)"
proof -
  have "reroll_loop table_env (Suc (Suc 8)) 1 (PStr ''bob'')
          \<lparr>db = table1, draws = 0, queries = [UpdateUsername (PStr ''bob'') 1]\<rparr>
        = (Inr (Some ''43''),
           \<lparr>db = table1, draws = 2,
            queries = [UpdateUsername (PStr ''bob'') 1,
                       SelectExistingUid (PStr ''bob'') ''42'',
                       SelectExistingUid (PStr ''bob'') ''43'']\<rparr>)"
    apply (simp only: reroll_loop.simps)
    apply (simp add: draw_randint_def fetch_def Let_def rand_table str_42 draw_table fetch_table1)
    done
  then show ?thesis
    by (simp add: try_reroll_def start_def)
qed

lemma stuck_step:
  "db_fetch stuck_env (SelectExistingUid (PStr ''bob'') ''42'') table1
     = Inr (PDict [(''user_id'', PInt 3)])"
  by (simp add: stuck_env_def table_env_def table1_def)

lemma reroll_loop_stuck:
  "db w = table1 \<Longrightarrow>
   reroll_loop stuck_env n uid (PStr ''bob'') w
   = (Inr None, w\<lparr>draws := draws w + n,
                  queries := queries w @ replicate n (SelectExistingUid (PStr ''bob'') ''42'')\<rparr>)"
proof (induction n arbitrary: w)
  case 0
  show ?case by simp
next
  case (Suc n)
  have r: "rand stuck_env k = 41" for k by (simp add: stuck_env_def)
  show ?case
    using Suc.prems stuck_step
    by (simp add: draw_randint_def fetch_def Let_def r draw_table str_42 Suc.IH replicate_app_Cons_same)
qed

lemma reroll_stuck:
  "try_reroll stuck_env 1 (PStr ''bob'')
     ((start table1)\<lparr>queries := queries (start table1) @ [UpdateUsername (PStr ''bob'') 1]\<rparr>)
   = (Inr None,
      \<lparr>db = table1, draws = 10,
       queries = UpdateUsername (PStr ''bob'') 1 # replicate 10 (SelectExistingUid (PStr ''bob'') ''42'')\<rparr>)"
  by (simp add: try_reroll_def reroll_loop_stuck start_def)

theorem try_reroll_outcome_witness:
  "try_reroll table_env 1 (PStr ''bob'')
     ((start table1)\<lparr>queries := queries (start table1) @ [UpdateUsername (PStr ''bob'') 1]\<rparr>)
   = (Inr (Some ''43''),
      \<lparr>db = table1, draws = 2,
       queries = [UpdateUsername (PStr ''bob'') 1,
                  SelectExistingUid (PStr ''bob'') ''42'',
                  SelectExistingUid (PStr ''bob'') ''43'']\<rparr>)
   \<and> answer table_env 1 (PStr ''bob'') ''42'' table1 = None
   \<and> answer table_env 1 (PStr ''bob'') ''43'' table1 = Some (Inr table1)
   \<and> try_reroll stuck_env 1 (PStr ''bob'')
     ((start table1)\<lparr>queries := queries (start table1) @ [UpdateUsername (PStr ''bob'') 1]\<rparr>)
   = (Inr None,
      \<lparr>db = table1, draws = 10,
       queries = UpdateUsername (PStr ''bob'') 1 # replicate 10 (SelectExistingUid (PStr ''bob'') ''42'')\<rparr>)
   \<and> answer stuck_env 1 (PStr ''bob'') (nth_discrim stuck_env 9) table1 = None"
proof -
  from try_reroll_outcome [where E = table_env and user_id = 1 and preferred_username = "PStr ''bob''"
      and w = "(start table1)\<lparr>queries := queries (start table1) @ [UpdateUsername (PStr ''bob'') 1]\<rparr>",
      unfolded reroll_table1]
  have "answer table_env 1 (PStr ''bob'') ''42'' table1 = None
      \<and> answer table_env 1 (PStr ''bob'') ''43'' table1 = Some (Inr table1)"
    by (simp add: start_def nth_discrim_table)
  moreover from try_reroll_outcome [where E = stuck_env and user_id = 1 and preferred_username = "PStr ''bob''"
      and w = "(start table1)\<lparr>queries := queries (start table1) @ [UpdateUsername (PStr ''bob'') 1]\<rparr>",
      unfolded reroll_stuck]
  have "answer stuck_env 1 (PStr ''bob'') (nth_discrim stuck_env 9) table1 = None"
    by (simp add: start_def)
  ultimately show ?thesis
    using reroll_table1 reroll_stuck by simp
qed







section \<open>Properties of the identify schema\<close>

lemma check_type_TString: "check_type TString v \<longleftrightarrow> (\<exists>s. v = PStr s)"
  by (cases v) auto

lemma check_type_TNumber: "check_type TNumber v \<longleftrightarrow> (\<exists>i. v = PInt i)"
  by (cases v) auto

lemma check_type_TList: "check_type TList v \<longleftrightarrow> (\<exists>xs. v = PList xs)"
  by (cases v) auto

lemma check_type_TDict: "check_type TDict v \<longleftrightarrow> (\<exists>kvs. v = PDict kvs)"
  by (cases v) auto

lemma check_type_TBoolean: "check_type TBoolean v \<longleftrightarrow> (\<exists>b. v = PBool b)"
  by (cases v) auto

lemmas check_type_iff = check_type_TString check_type_TNumber check_type_TList
  check_type_TDict check_type_TBoolean

lemma validate_outcome:
  "validate au s reqjson = Inl DecodeError
   \<or> (validate au s reqjson = Inr reqjson \<and> (\<exists>doc. reqjson = PDict doc)
       \<and> validate_value au (Rule TDict True (Some s)) reqjson)"
  by (auto simp: validate_def validator_validate_def split: pyval.splits)

lemma identify_accepts:
  assumes "validate_value au (Rule TDict True (Some IDENTIFY_SCHEMA)) (PDict doc)"
  shows "(\<exists>op. map_of doc ''op'' = Some (PInt op))
       \<and> (\<forall>d. map_of doc ''d'' = Some d \<longrightarrow>
             (\<exists>kvs tok. d = PDict kvs \<and> map_of kvs ''token'' = Some (PStr tok)
                \<and> (\<forall>sh. map_of kvs ''shard'' = Some sh \<longrightarrow> (\<exists>xs. sh = PList xs))))"
  using assms
  by (auto simp: IDENTIFY_SCHEMA_def BASE_def check_type_iff split: option.splits)

text \<open>
  C7, as the claim states it, fails: a payload with a token and without a shard
  declaration is accepted, whether the validator allows unknown fields or not.
\<close>

theorem identify_shard_optional:
  "validate False IDENTIFY_SCHEMA identify_no_shard = Inr identify_no_shard
   \<and> validate True IDENTIFY_SCHEMA identify_no_shard = Inr identify_no_shard
   \<and> index_path identify_no_shard [''d'', ''token''] = Some (PStr ''abc'')
   \<and> index_path identify_no_shard [''d'', ''shard''] = None"
  by (simp add: validate_def validator_validate_def IDENTIFY_SCHEMA_def BASE_def
        identify_no_shard_def)

text \<open>
  C7, amended. \<open>validate\<close> raises \<open>DecodeError\<close> or returns the document, a dictionary.
  In a returned document the field \<open>op\<close> is a number and the data field \<open>d\<close>, when
  present, is a dictionary with a string \<open>token\<close>, in which \<open>shard\<close>, when present, is a
  list. A document whose data field is a dictionary without \<open>token\<close> raises
  \<open>DecodeError\<close>.
\<close>

theorem identify_validate:
  "(validate au IDENTIFY_SCHEMA reqjson = Inl DecodeError
      \<or> validate au IDENTIFY_SCHEMA reqjson = Inr reqjson)
   \<and> (validate au IDENTIFY_SCHEMA reqjson = Inr out \<longrightarrow>
        out = reqjson
        \<and> (\<exists>doc op. reqjson = PDict doc \<and> map_of doc ''op'' = Some (PInt op)
             \<and> (\<forall>d. map_of doc ''d'' = Some d \<longrightarrow>
                   (\<exists>kvs tok. d = PDict kvs \<and> map_of kvs ''token'' = Some (PStr tok)
                      \<and> (\<forall>sh. map_of kvs ''shard'' = Some sh \<longrightarrow> (\<exists>xs. sh = PList xs))))))
   \<and> (\<forall>doc kvs. reqjson = PDict doc \<and> map_of doc ''d'' = Some (PDict kvs)
          \<and> map_of kvs ''token'' = None \<longrightarrow>
        validate au IDENTIFY_SCHEMA reqjson = Inl DecodeError)"
proof -
  note o = validate_outcome [of au IDENTIFY_SCHEMA reqjson]
  have a: "validate au IDENTIFY_SCHEMA reqjson = Inl DecodeError
      \<or> validate au IDENTIFY_SCHEMA reqjson = Inr reqjson"
    using o by blast
  have b: "validate au IDENTIFY_SCHEMA reqjson = Inr out \<longrightarrow>
        out = reqjson
        \<and> (\<exists>doc op. reqjson = PDict doc \<and> map_of doc ''op'' = Some (PInt op)
             \<and> (\<forall>d. map_of doc ''d'' = Some d \<longrightarrow>
                   (\<exists>kvs tok. d = PDict kvs \<and> map_of kvs ''token'' = Some (PStr tok)
                      \<and> (\<forall>sh. map_of kvs ''shard'' = Some sh \<longrightarrow> (\<exists>xs. sh = PList xs)))))"
  proof
    assume r: "validate au IDENTIFY_SCHEMA reqjson = Inr out"
    with o obtain doc where d: "out = reqjson" "reqjson = PDict doc"
        "validate_value au (Rule TDict True (Some IDENTIFY_SCHEMA)) (PDict doc)"
      by auto
    from identify_accepts [OF d(3)] d(1,2) show "out = reqjson
        \<and> (\<exists>doc op. reqjson = PDict doc \<and> map_of doc ''op'' = Some (PInt op)
             \<and> (\<forall>d. map_of doc ''d'' = Some d \<longrightarrow>
                   (\<exists>kvs tok. d = PDict kvs \<and> map_of kvs ''token'' = Some (PStr tok)
                      \<and> (\<forall>sh. map_of kvs ''shard'' = Some sh \<longrightarrow> (\<exists>xs. sh = PList xs)))))"
      by blast
  qed
  have c: "\<forall>doc kvs. reqjson = PDict doc \<and> map_of doc ''d'' = Some (PDict kvs)
          \<and> map_of kvs ''token'' = None \<longrightarrow>
        validate au IDENTIFY_SCHEMA reqjson = Inl DecodeError"
  proof (intro allI impI)
    fix doc kvs
    assume h: "reqjson = PDict doc \<and> map_of doc ''d'' = Some (PDict kvs)
          \<and> map_of kvs ''token'' = None"
    show "validate au IDENTIFY_SCHEMA reqjson = Inl DecodeError"
    proof (rule ccontr)
      assume "validate au IDENTIFY_SCHEMA reqjson \<noteq> Inl DecodeError"
      with o h have "validate_value au (Rule TDict True (Some IDENTIFY_SCHEMA)) (PDict doc)"
        by auto
      from identify_accepts [OF this] h show False by auto
    qed
  qed
  from a b c show ?thesis by blast
qed

theorem identify_validate_witness:
  "validate False IDENTIFY_SCHEMA identify_sharded = Inr identify_sharded
   \<and> index_path identify_sharded [''d'', ''token''] = Some (PStr ''abc'')
   \<and> index_path identify_sharded [''d'', ''shard''] = Some (PList [PInt 0, PInt 1])
   \<and> map_of [(''shard'', PList [PInt 0, PInt 1])] ''token'' = None
   \<and> validate False IDENTIFY_SCHEMA
        (PDict [(''op'', PInt 2), (''d'', PDict [(''shard'', PList [PInt 0, PInt 1])])])
       = Inl DecodeError"
proof -
  have v: "validate False IDENTIFY_SCHEMA identify_sharded = Inr identify_sharded"
    by (simp add: validate_def validator_validate_def IDENTIFY_SCHEMA_def BASE_def
          identify_sharded_def)
  have "validate False IDENTIFY_SCHEMA
        (PDict [(''op'', PInt 2), (''d'', PDict [(''shard'', PList [PInt 0, PInt 1])])])
       = Inl DecodeError"
    using identify_validate [of False
        "PDict [(''op'', PInt 2), (''d'', PDict [(''shard'', PList [PInt 0, PInt 1])])]"]
    by simp
  moreover have "index_path identify_sharded [''d'', ''token''] = Some (PStr ''abc'')
   \<and> index_path identify_sharded [''d'', ''shard''] = Some (PList [PInt 0, PInt 1])"
    using identify_validate [of False identify_sharded identify_sharded] v
    by (simp add: identify_sharded_def)
  ultimately show ?thesis using v by simp
qed


section \<open>Properties of the dispatch engine\<close>

lemma prefix_upt:
  assumes "map f (xs @ ys) = [1..<Suc n]"
  shows "map f xs = [1..<Suc (length xs)]"
proof -
  from assms have "length (map f (xs @ ys)) = length [1..<Suc n]" by simp
  then have n: "length xs + length ys = n" by simp
  have "map f xs = take (length xs) (map f (xs @ ys))" by simp
  also have "\<dots> = take (length xs) [1..<Suc n]" using assms by simp
  also have "\<dots> = [1..<Suc (length xs)]" using n by (simp add: take_upt del: upt_Suc)
  finally show ?thesis .
qed

lemma enqueue_ok: "session_ok s \<Longrightarrow> session_ok (enqueue b n p s)"
  by (auto simp: session_ok_def enqueue_def upt_Suc_append simp del: upt_Suc)

lemma drain_session_ok:
  assumes "session_ok s"
  shows "session_ok (drain_session s)"
proof (cases "queue s")
  case Nil
  with assms show ?thesis by (simp add: drain_session_def)
next
  case (Cons ev rest)
  show ?thesis
  proof (cases "conn s = DISCONNECTED")
    case True
    with assms Cons show ?thesis by (simp add: drain_session_def)
  next
    case False
    from assms False have "map ev_seq (wire s @ queue s) = [1..<Suc (seq s)]"
      unfolding session_ok_def by blast
    with Cons have all: "map ev_seq ((wire s @ [ev]) @ rest) = [1..<Suc (seq s)]"
      by (simp del: upt_Suc)
    from prefix_upt [OF all]
    have w: "map ev_seq (wire s @ [ev]) = [1..<Suc (length (wire s @ [ev]))]" .
    have f: "wire (drain_session s) = wire s @ [ev]" "queue (drain_session s) = rest"
        "conn (drain_session s) = conn s" "seq (drain_session s) = seq s"
      using Cons False by (simp_all add: drain_session_def)
    show ?thesis unfolding session_ok_def f using w all by blast
  qed
qed

lemma sessions_release [simp]: "sessions (release sid e) = sessions e"
  by (simp add: release_def)

lemma sessions_subscribe [simp]: "sessions (subscribe t sid e) = sessions e"
  by (simp add: subscribe_def)

lemma sessions_fold_subscribe [simp]:
  "sessions (fold (\<lambda>t. subscribe t sid) ts e) = sessions e"
  by (induction ts arbitrary: e) simp_all

lemma sessions_unsubscribe [simp]: "sessions (unsubscribe t sid e) = sessions e"
  by (simp add: unsubscribe_def)

lemma sessions_deliver:
  "sessions (deliver n p sid e) =
     map (\<lambda>s. if session_id s = sid then enqueue (bound e) n p s else s) (sessions e)"
  by (simp add: deliver_def Let_def)

lemma bound_deliver [simp]: "bound (deliver n p sid e) = bound e"
  by (simp add: deliver_def Let_def release_def)

lemma deliver_ok: "engine_ok e \<Longrightarrow> engine_ok (deliver n p sid e)"
  by (auto simp: engine_ok_def sessions_deliver enqueue_ok)

lemma fold_deliver_ok: "engine_ok e \<Longrightarrow> engine_ok (fold (deliver n p) sids e)"
  by (induction sids arbitrary: e) (simp_all add: deliver_ok)

lemma publish_ok: "engine_ok e \<Longrightarrow> engine_ok (publish k i n p e)"
  by (simp add: publish_def fold_deliver_ok)

lemma publishMany_ok: "engine_ok e \<Longrightarrow> engine_ok (publishMany k ids n p e)"
  by (simp add: publishMany_def fold_deliver_ok)

lemma publishToUser_ok: "engine_ok e \<Longrightarrow> engine_ok (publishToUser uid n p e)"
  by (simp add: publishToUser_def fold_deliver_ok)

lemma drain_ok: "engine_ok e \<Longrightarrow> engine_ok (drain sid e)"
  by (auto simp: engine_ok_def drain_def drain_session_ok)

lemma disconnect_ok: "engine_ok e \<Longrightarrow> engine_ok (disconnect sid e)"
  by (auto simp: engine_ok_def disconnect_def session_ok_def simp del: upt_Suc)

lemma identify_ok: "engine_ok e \<Longrightarrow> engine_ok (identify sid uid ts snap e)"
proof -
  assume ok: "engine_ok e"
  have "engine_ok (fold (\<lambda>t. subscribe t sid) ts
                (e\<lparr>sessions := sessions e @
                     [\<lparr>session_id = sid, owner = uid, seq = 0, conn = READY,
                       queue = [], wire = []\<rparr>]\<rparr>))"
    using ok by (auto simp: engine_ok_def session_ok_def simp del: upt_Suc)
  then show ?thesis using ok by (simp add: identify_def deliver_ok)
qed

lemma step_ok: "engine_ok e \<Longrightarrow> engine_ok (step x e)"
proof (cases x)
  case (Subscribe t sid)
  then show "engine_ok e \<Longrightarrow> ?thesis" by (simp add: engine_ok_def)
next
  case (Unsubscribe t sid)
  then show "engine_ok e \<Longrightarrow> ?thesis" by (simp add: engine_ok_def)
qed (simp_all add: identify_ok publish_ok publishMany_ok publishToUser_ok drain_ok disconnect_ok)

lemma run_ok: "engine_ok e \<Longrightarrow> engine_ok (run ops e)"
  unfolding run_def by (induction ops arbitrary: e) (simp_all add: step_ok)

lemma new_engine_ok: "engine_ok (new_engine b)"
  by (simp add: engine_ok_def new_engine_def)

text \<open>
  C4. In every session of an engine reached by any sequence of operations from the empty
  engine, the events received carry the sequence numbers 1, 2, ..., one per event, in
  order: strictly increasing and without a gap, the counter starting at 0 and being
  incremented when an event is stamped. While the session lives, the events received
  and those still queued carry 1, ..., \<open>seq\<close>.
\<close>

theorem sequence_numbers_gapless:
  assumes "s \<in> set (sessions (run ops (new_engine b)))"
  shows "map ev_seq (wire s) = [1..<Suc (length (wire s))]
       \<and> (conn s \<noteq> DISCONNECTED \<longrightarrow>
            map ev_seq (wire s @ queue s) = [1..<Suc (seq s)])"
  using run_ok [OF new_engine_ok, of ops b] assms
  unfolding engine_ok_def session_ok_def by blast

lemma session_id_enqueue [simp]: "session_id (enqueue b n p s) = session_id s"
  by (simp add: enqueue_def)

lemma session_id_funpow [simp]: "session_id ((enqueue b n p ^^ c) s) = session_id s"
  by (induction c) simp_all

lemma enqueue_dead: "conn s = DISCONNECTED \<Longrightarrow> enqueue b n p s = s"
  by (simp add: enqueue_def)

lemma funpow_enqueue_dead: "conn s = DISCONNECTED \<Longrightarrow> (enqueue b n p ^^ c) s = s"
  by (induction c) (simp_all add: enqueue_dead)

lemma enqueue_stays_dead: "conn s = DISCONNECTED \<Longrightarrow> conn (enqueue b n p s) = DISCONNECTED"
  by (simp add: enqueue_def)

lemma bound_fold_deliver [simp]: "bound (fold (deliver n p) L e) = bound e"
  by (induction L arbitrary: e) simp_all

lemma sessions_fold_deliver:
  "sessions (fold (deliver n p) L e) =
     map (\<lambda>s. (enqueue (bound e) n p ^^ count_list L (session_id s)) s) (sessions e)"
proof (induction L arbitrary: e)
  case Nil
  show ?case by simp
next
  case (Cons x L)
  show ?case
    by (simp add: Cons.IH sessions_deliver funpow_swap1)
qed

lemma count_list_distinct:
  "distinct xs \<Longrightarrow> count_list xs x = (if x \<in> set xs then 1 else 0)"
  by (induction xs) auto

lemma sessions_publishMany:
  "sessions (publishMany k ids n p e) =
     map (\<lambda>s. if \<exists>i \<in> set ids. session_id s \<in> set (subscribers e (k, i))
               then enqueue (bound e) n p s else s) (sessions e)"
  by (simp add: publishMany_def sessions_fold_deliver count_list_distinct)

lemma dead_deliver_mono:
  assumes "dead e x"
  shows "dead (deliver n p y e) x"
proof -
  let ?f = "\<lambda>s. if session_id s = y then enqueue (bound e) n p s else s"
  from assms obtain s where s: "s \<in> set (sessions e)" "session_id s = x" "conn s = DISCONNECTED"
    by (auto simp: dead_def list_ex_iff)
  then have "?f s \<in> set (sessions (deliver n p y e))"
    by (simp add: sessions_deliver)
  moreover have "session_id (?f s) = x" "conn (?f s) = DISCONNECTED"
    using s by (simp_all add: enqueue_stays_dead)
  ultimately show ?thesis
    unfolding dead_def list_ex_iff by blast
qed

lemma dead_fold_mono: "dead e x \<Longrightarrow> dead (fold (deliver n p) L e) x"
  by (induction L arbitrary: e) (simp_all add: dead_deliver_mono)

lemma registry_deliver:
  "registry (deliver n p y e) t =
     (if dead (deliver n p y e) y then removeAll y (registry e t) else registry e t)"
  by (simp add: deliver_def Let_def dead_def release_def)

lemma count_list_removeAll: "x \<noteq> y \<Longrightarrow> count_list (removeAll y xs) x = count_list xs x"
  by (induction xs) auto

lemma registry_deliver_count:
  "\<not> dead (deliver n p y e) x \<Longrightarrow>
   count_list (registry (deliver n p y e) t) x = count_list (registry e t) x"
  by (cases "x = y") (auto simp: registry_deliver count_list_removeAll)

lemma registry_fold_count:
  "\<not> dead (fold (deliver n p) L e) x \<Longrightarrow>
   count_list (registry (fold (deliver n p) L e) t) x = count_list (registry e t) x"
proof (induction L arbitrary: e)
  case Nil
  show ?case by simp
next
  case (Cons y L)
  from Cons.prems have nd: "\<not> dead (fold (deliver n p) L (deliver n p y e)) x" by simp
  then have "\<not> dead (deliver n p y e) x" using dead_fold_mono by blast
  with Cons.IH [OF nd] show ?case by (simp add: registry_deliver_count)
qed

lemma funpow_funpow: "(f ^^ a) ((f ^^ b) x) = (f ^^ (b + a)) x"
  by (simp add: funpow_add add.commute)

lemma sessions_publish_each_gen:
  assumes "distinct (map session_id (sessions e))"
      and "\<And>t x. \<not> dead e x \<Longrightarrow> count_list (registry e t) x = count_list (R t) x"
  shows "sessions (publish_each k ids n p e) =
     map (\<lambda>s. (enqueue (bound e) n p ^^
                  sum_list (map (\<lambda>i. count_list (R (k, i)) (session_id s)) ids)) s)
         (sessions e)"
  using assms
proof (induction ids arbitrary: e)
  case Nil
  show ?case by (simp add: publish_each_def)
next
  case (Cons i ids)
  let ?e1 = "publish k i n p e"
  have s1: "sessions ?e1 =
      map (\<lambda>s. (enqueue (bound e) n p ^^ count_list (registry e (k, i)) (session_id s)) s)
          (sessions e)"
    by (simp add: publish_def subscribers_def sessions_fold_deliver)
  have b1: "bound ?e1 = bound e" by (simp add: publish_def)
  have d1: "distinct (map session_id (sessions ?e1))"
    using Cons.prems(1) by (simp add: s1 comp_def)
  have a1: "\<And>t x. \<not> dead ?e1 x \<Longrightarrow> count_list (registry ?e1 t) x = count_list (R t) x"
  proof -
    fix t x
    assume nd: "\<not> dead ?e1 x"
    then have "\<not> dead e x" unfolding publish_def using dead_fold_mono by blast
    with Cons.prems(2) have "count_list (registry e t) x = count_list (R t) x" by blast
    moreover from nd have "count_list (registry ?e1 t) x = count_list (registry e t) x"
      unfolding publish_def by (rule registry_fold_count)
    ultimately show "count_list (registry ?e1 t) x = count_list (R t) x" by simp
  qed
  have step: "publish_each k (i # ids) n p e = publish_each k ids n p ?e1"
    by (simp add: publish_each_def)
  have pt: "\<And>s. s \<in> set (sessions e) \<Longrightarrow>
      (enqueue (bound e) n p ^^ count_list (registry e (k, i)) (session_id s)) s
      = (enqueue (bound e) n p ^^ count_list (R (k, i)) (session_id s)) s"
  proof -
    fix s
    assume m: "s \<in> set (sessions e)"
    show "(enqueue (bound e) n p ^^ count_list (registry e (k, i)) (session_id s)) s
      = (enqueue (bound e) n p ^^ count_list (R (k, i)) (session_id s)) s"
    proof (cases "dead e (session_id s)")
      case False
      with Cons.prems(2) show ?thesis by simp
    next
      case True
      then obtain s' where s': "s' \<in> set (sessions e)" "session_id s' = session_id s"
          "conn s' = DISCONNECTED"
        by (auto simp: dead_def list_ex_iff)
      with m Cons.prems(1) have "s' = s"
        by (meson distinct_map inj_onD)
      with s'(3) show ?thesis by (simp add: funpow_enqueue_dead)
    qed
  qed
  have "sessions (publish_each k (i # ids) n p e) = sessions (publish_each k ids n p ?e1)"
    by (simp add: step)
  also have "\<dots> = map (\<lambda>s. (enqueue (bound ?e1) n p ^^
                  sum_list (map (\<lambda>i. count_list (R (k, i)) (session_id s)) ids)) s)
         (sessions ?e1)"
    by (rule Cons.IH [OF d1 a1])
  also have "\<dots> = map (\<lambda>s. (enqueue (bound e) n p ^^
                  sum_list (map (\<lambda>i. count_list (R (k, i)) (session_id s)) (i # ids))) s)
         (sessions e)"
    unfolding s1 b1 map_map
  proof (rule map_cong [OF refl])
    fix s
    assume m: "s \<in> set (sessions e)"
    show "((\<lambda>s. (enqueue (bound e) n p ^^
                  sum_list (map (\<lambda>i. count_list (R (k, i)) (session_id s)) ids)) s)
           \<circ> (\<lambda>s. (enqueue (bound e) n p ^^ count_list (registry e (k, i)) (session_id s)) s)) s
        = (enqueue (bound e) n p ^^
                  sum_list (map (\<lambda>i. count_list (R (k, i)) (session_id s)) (i # ids))) s"
      using pt [OF m] by (simp add: funpow_funpow)
  qed
  finally show ?case .
qed

text \<open>
  C3. For every kind, list of ids and event, and every engine whose sessions have
  distinct ids: \<open>publishMany\<close> enqueues the event exactly once on each session subscribed
  to at least one of the ids and leaves the others untouched, whereas sequential
  \<open>publish\<close> calls enqueue it once per id the session is subscribed to.
\<close>

theorem publishMany_once:
  assumes "distinct (map session_id (sessions e))"
  shows "sessions (publishMany k ids n p e) =
           map (\<lambda>s. if \<exists>i \<in> set ids. session_id s \<in> set (subscribers e (k, i))
                     then enqueue (bound e) n p s else s) (sessions e)
       \<and> sessions (publish_each k ids n p e) =
           map (\<lambda>s. (enqueue (bound e) n p ^^
                        sum_list (map (\<lambda>i. count_list (subscribers e (k, i)) (session_id s)) ids)) s)
               (sessions e)"
  using sessions_publishMany [of k ids n p e]
        sessions_publish_each_gen [OF assms, of "registry e" k ids n p]
  by (simp add: subscribers_def)

lemma run_example: "sessions (run ops_example (new_engine 4)) = [session_example]"
  by (simp add: ops_example_def run_def new_engine_def identify_def subscribe_def deliver_def
        publish_def subscribers_def enqueue_def drain_def drain_session_def session_example_def
        Let_def)

theorem sequence_numbers_gapless_witness:
  "session_example \<in> set (sessions (run ops_example (new_engine 4)))
   \<and> map ev_seq (wire session_example) = [1, 2]
   \<and> conn session_example \<noteq> DISCONNECTED
   \<and> map ev_seq (wire session_example @ queue session_example) = [1, 2, 3]"
proof -
  have m: "session_example \<in> set (sessions (run ops_example (new_engine 4)))"
    by (simp add: run_example)
  have c: "conn session_example \<noteq> DISCONNECTED"
    by (simp add: session_example_def)
  have l: "length (wire session_example) = 2" "seq session_example = 3"
    by (simp_all add: session_example_def)
  have u: "[1..<Suc 2] = [1, 2]" "[1..<Suc 3] = [1, 2, 3]"
    by (simp_all add: upt_rec)
  from sequence_numbers_gapless [OF m, unfolded l u] m c show ?thesis
    by blast
qed

theorem publishMany_once_witness:
  "distinct (map session_id (sessions engine_example))
   \<and> map (\<lambda>s. map ev_name (queue s))
         (sessions (publishMany GuildTopic [7, 8] ''USER_UPDATE'' PNone engine_example))
       = [[''USER_UPDATE''], [''USER_UPDATE''], []]
   \<and> map (\<lambda>s. map ev_name (queue s))
         (sessions (publish_each GuildTopic [7, 8] ''USER_UPDATE'' PNone engine_example))
       = [[''USER_UPDATE'', ''USER_UPDATE''], [''USER_UPDATE''], []]"
proof -
  have d: "distinct (map session_id (sessions engine_example))"
    by (simp add: engine_example_def fresh_def)
  have two: "\<And>f x. (f ^^ 2) x = f (f x)"
    by (simp add: numeral_2_eq_2)
  from publishMany_once [OF d, of GuildTopic "[7, 8]" "''USER_UPDATE''" PNone] d
  show ?thesis
    by (simp add: engine_example_def fresh_def subscribers_def enqueue_def two)
qed


section \<open>Properties of the handlers\<close>

lemma str_7: "str_int 7 = ''7''"
  by (simp add: str_int_def str_nat.simps digit_char_def)

text \<open>
  C1. User 1 leaves guild 7, of which user 2 is a member too. The handler delivers
  \<open>GUILD_DELETE\<close> to the session of user 1 and then removes its subscription, in this
  order; the third call carries no guild id, raises \<open>TypeError\<close>, and the session of
  user 2, still subscribed, receives nothing.
\<close>

theorem leave_guild_member_remove:
  "(case leave_guild table_handlers (Inr 1) 7 world0 of (r, w) \<Rightarrow>
      r = Inl TypeError
      \<and> queries w = [DeleteMember 1 7]
      \<and> calls w =
          [Call ''dispatch_user_guild''
             [PInt 1, PInt 7, PStr ''GUILD_DELETE'',
              PDict [(''id'', PStr ''7''), (''unavailable'', PBool False)]],
           Call ''unsub'' [PStr ''guild'', PInt 7, PInt 1],
           Call ''dispatch_guild''
             [PStr ''GUILD_MEMBER_REMOVE'',
              PDict [(''guild_id'', PStr ''7''),
                     (''user'', PDict [(''id'', PStr ''1''), (''username'', PStr ''ann''),
                                       (''discriminator'', PStr ''7'')])]]]
      \<and> registry (eng w) (GuildTopic, 7) = [2]
      \<and> map (\<lambda>s. map ev_name (queue s)) (sessions (eng w)) = [[''GUILD_DELETE''], []])"
  by (simp add: leave_guild_def and_then_def lift_def dispatch_def dispatcher_def execute_def
        table_handlers_def world0_def guild_engine_def fresh_def table1_def str_7
        kind_of_name_def unsub_def sessions_of_def unsubscribe_def publishToUser_def
        deliver_def enqueue_def Let_def str_int_def str_nat.simps digit_char_def)

lemma dispatch_guild_with_id:
  "map (\<lambda>s. map ev_name (queue s))
     (sessions (case dispatcher (Call ''dispatch_guild'' [PInt 7, PStr ''GUILD_MEMBER_REMOVE'', PNone])
                       (unsub GuildTopic 7 1 guild_engine) of Inr e \<Rightarrow> e | Inl x \<Rightarrow> guild_engine))
   = [[], [''GUILD_MEMBER_REMOVE'']]"
  by (simp add: dispatcher_def guild_engine_def fresh_def unsub_def sessions_of_def
        unsubscribe_def publish_def subscribers_def deliver_def enqueue_def Let_def)

lemma execute_frame:
  "calls (snd (execute E st w)) = calls w" "eng (snd (execute E st w)) = eng w"
  "queries (snd (execute E st w)) = queries w @ [st]"
  by (simp_all add: execute_def Let_def split: sum.splits)

lemma execute_each_frame:
  "execute_each E kvs w = (Inr u, w') \<Longrightarrow>
     calls w' = calls w \<and> eng w' = eng w
     \<and> queries w' = queries w @ map (\<lambda>(k, v). UpdateSetting k v) kvs"
proof (induction kvs arbitrary: w)
  case Nil
  then show ?case by (simp add: lift_def)
next
  case (Cons kv kvs)
  obtain k v where kv: "kv = (k, v)" by (cases kv)
  obtain r w1 where e: "execute E (UpdateSetting k v) w = (r, w1)"
    by (cases "execute E (UpdateSetting k v) w")
  with Cons.prems kv obtain u1 where r: "r = Inr u1" and rest: "execute_each E kvs w1 = (Inr u, w')"
    by (cases r) (auto simp: and_then_def)
  from execute_frame [of E "UpdateSetting k v" w] e
  have "calls w1 = calls w" "eng w1 = eng w" "queries w1 = queries w @ [UpdateSetting k v]"
    by simp_all
  with Cons.IH [OF rest] kv show ?case by simp
qed

lemma dispatch_user_ok:
  "dispatch ''dispatch_user'' [PInt uid, PStr ev, data] w =
     (Inr (), w\<lparr>calls := calls w @ [Call ''dispatch_user'' [PInt uid, PStr ev, data]],
                eng := publishToUser uid ev data (eng w)\<rparr>)"
  by (simp add: dispatch_def dispatcher_def Let_def)

lemma settings_update_dispatch:
  assumes "patch_current_settings E token_check validated w = (Inr resp, w')"
  shows "\<exists>user_id j settings.
           token_check = Inr user_id \<and> validated = Inr j
         \<and> settings = get_user_settings E user_id (db w')
         \<and> queries w' = queries w @ map (\<lambda>(k, v). UpdateSetting k v) j
         \<and> calls w' = calls w @
              [Call ''dispatch_user'' [PInt user_id, PStr ''USER_SETTINGS_UPDATE'', settings]]
         \<and> eng w' = publishToUser user_id ''USER_SETTINGS_UPDATE'' settings (eng w)
         \<and> resp = (settings, 200)"
proof -
  from assms obtain user_id where t: "token_check = Inr user_id"
    by (cases token_check) (auto simp: patch_current_settings_def and_then_def lift_def)
  from assms t obtain j where v: "validated = Inr j"
    by (cases validated) (auto simp: patch_current_settings_def and_then_def lift_def)
  obtain r w1 where e: "execute_each E j w = (r, w1)"
    by (cases "execute_each E j w")
  with assms t v obtain u where r: "r = Inr u"
    by (cases r) (auto simp: patch_current_settings_def and_then_def lift_def)
  from execute_each_frame [OF e [unfolded r]]
  have f: "calls w1 = calls w" "eng w1 = eng w"
      "queries w1 = queries w @ map (\<lambda>(k, v). UpdateSetting k v) j"
    by simp_all
  from assms t v e r f show ?thesis
    by (auto simp: patch_current_settings_def and_then_def lift_def dispatch_user_ok)
qed

lemma frame_lift: "frame (lift r)"
  by (simp add: frame_def lift_def)

lemma frame_read: "frame (\<lambda>w. lift (g w) w)"
  by (simp add: frame_def lift_def)

lemma frame_and_then:
  assumes "frame m" and "\<And>a. frame (f a)"
  shows "frame (and_then m f)"
  unfolding frame_def
proof
  fix w
  obtain r w1 where m: "m w = (r, w1)" by (cases "m w")
  with assms(1) have w1: "calls w1 = calls w" "eng w1 = eng w"
    by (auto simp: frame_def dest: spec [of _ w])
  show "calls (snd (and_then m f w)) = calls w \<and> eng (snd (and_then m f w)) = eng w"
  proof (cases r)
    case (Inl e)
    with m w1 show ?thesis by (simp add: and_then_def)
  next
    case (Inr a)
    from assms(2) [of a] have "calls (snd (f a w1)) = calls w1 \<and> eng (snd (f a w1)) = eng w1"
      by (simp add: frame_def)
    with Inr m w1 show ?thesis by (simp add: and_then_def)
  qed
qed

lemma frame_execute: "frame (execute E st)"
  by (simp add: frame_def execute_frame)

lemma frame_fetch: "frame (fetch E st)"
  by (simp add: frame_def fetch_def)

lemma reroll_loop_frame:
  "calls (snd (reroll_loop E n u p w)) = calls w \<and> eng (snd (reroll_loop E n u p w)) = eng w"
proof (induction n arbitrary: w)
  case 0
  show ?case by simp
next
  case (Suc n)
  show ?case
    by (auto simp: Let_def draw_randint_def fetch_def execute_def Suc.IH
        split: prod.splits sum.splits)
qed

lemma reroll_loop_frameD:
  "reroll_loop E n u p w = (r, w') \<Longrightarrow> calls w' = calls w \<and> eng w' = eng w"
  using reroll_loop_frame [of E n u p w] by simp

lemma frame_try_username_patch: "frame (try_username_patch E u name)"
  unfolding frame_def
proof
  fix w
  show "calls (snd (try_username_patch E u name w)) = calls w
      \<and> eng (snd (try_username_patch E u name w)) = eng w"
    by (auto simp: try_username_patch_def username_update_def try_reroll_def execute_def fetch_def Let_def
        dest: reroll_loop_frameD split: option.splits prod.splits sum.splits)
qed

lemma frame_try_discrim_patch: "frame (try_discrim_patch E u d)"
  by (auto simp: frame_def try_discrim_patch_def execute_def Let_def split: sum.splits)

lemma frame_patch_me_updates: "frame (patch_me_updates E u j)"
  unfolding patch_me_updates_def patch_username_def patch_discriminator_def patch_email_def
    patch_password_def
  by (intro frame_and_then frame_lift frame_read frame_execute frame_fetch
        frame_try_username_patch frame_try_discrim_patch)
     (auto intro!: frame_and_then frame_lift frame_read frame_execute frame_fetch
        frame_try_username_patch frame_try_discrim_patch split: option.splits)

lemma ints_of_map: "ints_of (map PInt ids) = Some ids"
  by (induction ids) simp_all

lemma dispatch_many_ok:
  "kind_of_name kind = Some k \<Longrightarrow>
   dispatch ''dispatch_many'' [PStr kind, PList (map PInt ids), PStr ev, data] w =
     (Inr (), w\<lparr>calls := calls w @ [Call ''dispatch_many''
                                        [PStr kind, PList (map PInt ids), PStr ev, data]],
                eng := publishMany k ids ev data (eng w)\<rparr>)"
  by (simp add: dispatch_def dispatcher_def Let_def ints_of_map)

lemma kind_guild_friend:
  "kind_of_name ''guild'' = Some GuildTopic" "kind_of_name ''friend'' = Some FriendTopic"
  by (simp_all add: kind_of_name_def)

lemma patch_me_dispatch:
  assumes "patch_me E token_check validated w = (Inr resp, w')"
  shows "\<exists>user_id j user public_user guild_ids friend_ids.
           token_check = Inr user_id \<and> validated = Inr j
         \<and> public_user = get_user E user_id False (db w')
         \<and> guild_ids = get_user_guilds E user_id (db w')
         \<and> friend_ids = get_friend_ids E user_id (db w')
         \<and> calls w' = calls w @
              [Call ''dispatch_user'' [PInt user_id, PStr ''USER_UPDATE'', user],
               Call ''dispatch_many''
                 [PStr ''guild'', PList (map PInt guild_ids), PStr ''USER_UPDATE'', public_user],
               Call ''dispatch_many''
                 [PStr ''friend'', PList (map PInt friend_ids), PStr ''USER_UPDATE'', public_user]]
         \<and> resp = (user, 200)"
proof -
  from assms obtain user_id where t: "token_check = Inr user_id"
    by (cases token_check) (auto simp: patch_me_def and_then_def lift_def)
  from assms t obtain j where v: "validated = Inr j"
    by (cases validated) (auto simp: patch_me_def and_then_def lift_def)
  obtain r w1 where u: "patch_me_updates E user_id j w = (r, w1)"
    by (cases "patch_me_updates E user_id j w")
  with assms t v obtain user0 where r: "r = Inr user0"
    by (cases r) (auto simp: patch_me_def and_then_def lift_def)
  from frame_patch_me_updates [of E user_id j] u
  have f: "calls w1 = calls w"
    by (auto simp: frame_def dest: spec [of _ w])
  from assms t v u r obtain user where p: "pop user0 ''password_hash'' = Inr user"
    by (cases "pop user0 ''password_hash''") (auto simp: patch_me_def and_then_def lift_def)
  from assms t v u r p f show ?thesis
    by (auto simp: patch_me_def and_then_def lift_def dispatch_user_ok dispatch_many_ok
        kind_guild_friend)
qed

lemma settings_run:
  "patch_current_settings table_handlers (Inr 1) (Inr [(''theme'', PStr ''dark'')]) world0
     = (Inr (settings_example, 200), world_settings)"
  by (simp add: patch_current_settings_def and_then_def lift_def dispatch_user_ok execute_def
        table_handlers_def world0_def world_settings_def settings_example_def Let_def)

lemma str_1: "str_int 1 = ''1''"
  by (simp add: str_int_def str_nat.simps digit_char_def)

lemma patch_me_updates_run:
  "patch_me_updates table_handlers 1 [(''username'', PStr ''carl'')] world0
     = (Inr (PDict [(''id'', PStr ''1''), (''username'', PStr ''carl''),
                    (''discriminator'', PStr ''7''), (''password_hash'', PNone)]),
        world0\<lparr>db := [(1, ''carl'', ''7''), (2, ''bob'', ''7''), (3, ''bob'', ''42'')],
               queries := [SelectPasswordHash 1, UpdateUsername (PStr ''carl'') 1,
                           SelectDiscriminator 1]\<rparr>)"
  by (simp add: patch_me_updates_def patch_username_def patch_discriminator_def patch_email_def
        patch_password_def to_update_def try_username_patch_def username_update_def and_then_def lift_def
        execute_def fetch_def table_handlers_def world0_def table1_def checked_def
        unique_names_def str_1 Let_def)

lemma map_PInt: "map PInt [7, 8] = [PInt 7, PInt 8]" "map PInt [2] = [PInt 2]"
  by simp_all

lemma dispatch_many_guild:
  "dispatch ''dispatch_many'' [PStr ''guild'', PList [PInt 7, PInt 8], PStr ev, data] w =
     (Inr (), w\<lparr>calls := calls w @ [Call ''dispatch_many''
                                        [PStr ''guild'', PList [PInt 7, PInt 8], PStr ev, data]],
                eng := publishMany GuildTopic [7, 8] ev data (eng w)\<rparr>)"
  using dispatch_many_ok [OF kind_guild_friend(1), of "[7, 8]" ev data w] by simp

lemma dispatch_many_friend:
  "dispatch ''dispatch_many'' [PStr ''friend'', PList [PInt 2], PStr ev, data] w =
     (Inr (), w\<lparr>calls := calls w @ [Call ''dispatch_many''
                                        [PStr ''friend'', PList [PInt 2], PStr ev, data]],
                eng := publishMany FriendTopic [2] ev data (eng w)\<rparr>)"
  using dispatch_many_ok [OF kind_guild_friend(2), of "[2]" ev data w] by simp

lemma patch_me_run:
  "patch_me table_handlers (Inr 1) (Inr [(''username'', PStr ''carl'')]) world0
     = (Inr (carl, 200), world_carl)"
  apply (simp add: patch_me_def patch_me_updates_run and_then_def lift_def)
  apply (simp add: and_then_def lift_def dispatch_user_ok dispatch_many_guild
        dispatch_many_friend table_handlers_def world0_def world_carl_def carl_def str_1)
  done

text \<open>
  C2, as the claim states it, fails: a settings update that commits calls
  \<open>dispatch_user\<close> and nothing else; there is no call of \<open>dispatch_many\<close>.
\<close>

theorem settings_update_no_dispatch_many:
  "patch_current_settings table_handlers (Inr 1) (Inr [(''theme'', PStr ''dark'')]) world0
     = (Inr (settings_example, 200), world_settings)
   \<and> calls world_settings
       = calls world0 @ [Call ''dispatch_user'' [PInt 1, PStr ''USER_SETTINGS_UPDATE'', settings_example]]
   \<and> \<not> list_ex (\<lambda>c. call_name c = ''dispatch_many'') (calls world_settings)"
proof -
  have "calls world_settings
       = calls world0 @ [Call ''dispatch_user'' [PInt 1, PStr ''USER_SETTINGS_UPDATE'', settings_example]]"
    by (simp add: world_settings_def world0_def)
  moreover have "\<not> list_ex (\<lambda>c. call_name c = ''dispatch_many'') (calls world_settings)"
    by (simp add: world_settings_def)
  ultimately show ?thesis using settings_run by blast
qed

text \<open>
  C2, amended. A settings update that returns its response has sent one \<open>UPDATE\<close> per
  key and then made exactly one dispatcher call, \<open>dispatch_user\<close> with
  \<open>USER_SETTINGS_UPDATE\<close> and the settings read back. A profile update (\<open>patch_me\<close>)
  that returns its response has made exactly three dispatcher calls, in this order:
  \<open>dispatch_user\<close> with \<open>USER_UPDATE\<close> and the user, \<open>dispatch_many\<close> to the guilds of
  the user and \<open>dispatch_many\<close> to the friends, both with the public user.
\<close>

theorem update_dispatch:
  "(patch_current_settings E token_check validated w = (Inr resp, w') \<longrightarrow>
      (\<exists>user_id j settings.
           token_check = Inr user_id \<and> validated = Inr j
         \<and> settings = get_user_settings E user_id (db w')
         \<and> queries w' = queries w @ map (\<lambda>(k, v). UpdateSetting k v) j
         \<and> calls w' = calls w @
              [Call ''dispatch_user'' [PInt user_id, PStr ''USER_SETTINGS_UPDATE'', settings]]
         \<and> resp = (settings, 200)))
   \<and> (patch_me E token_check validated w = (Inr resp, w') \<longrightarrow>
      (\<exists>user_id j user public_user guild_ids friend_ids.
           token_check = Inr user_id \<and> validated = Inr j
         \<and> public_user = get_user E user_id False (db w')
         \<and> guild_ids = get_user_guilds E user_id (db w')
         \<and> friend_ids = get_friend_ids E user_id (db w')
         \<and> calls w' = calls w @
              [Call ''dispatch_user'' [PInt user_id, PStr ''USER_UPDATE'', user],
               Call ''dispatch_many''
                 [PStr ''guild'', PList (map PInt guild_ids), PStr ''USER_UPDATE'', public_user],
               Call ''dispatch_many''
                 [PStr ''friend'', PList (map PInt friend_ids), PStr ''USER_UPDATE'', public_user]]
         \<and> resp = (user, 200)))"
proof (intro conjI impI)
  assume "patch_current_settings E token_check validated w = (Inr resp, w')"
  from settings_update_dispatch [OF this]
  show "\<exists>user_id j settings.
           token_check = Inr user_id \<and> validated = Inr j
         \<and> settings = get_user_settings E user_id (db w')
         \<and> queries w' = queries w @ map (\<lambda>(k, v). UpdateSetting k v) j
         \<and> calls w' = calls w @
              [Call ''dispatch_user'' [PInt user_id, PStr ''USER_SETTINGS_UPDATE'', settings]]
         \<and> resp = (settings, 200)"
    by blast
next
  assume "patch_me E token_check validated w = (Inr resp, w')"
  from patch_me_dispatch [OF this]
  show "\<exists>user_id j user public_user guild_ids friend_ids.
           token_check = Inr user_id \<and> validated = Inr j
         \<and> public_user = get_user E user_id False (db w')
         \<and> guild_ids = get_user_guilds E user_id (db w')
         \<and> friend_ids = get_friend_ids E user_id (db w')
         \<and> calls w' = calls w @
              [Call ''dispatch_user'' [PInt user_id, PStr ''USER_UPDATE'', user],
               Call ''dispatch_many''
                 [PStr ''guild'', PList (map PInt guild_ids), PStr ''USER_UPDATE'', public_user],
               Call ''dispatch_many''
                 [PStr ''friend'', PList (map PInt friend_ids), PStr ''USER_UPDATE'', public_user]]
         \<and> resp = (user, 200)" .
qed

theorem update_dispatch_witness:
  "patch_current_settings table_handlers (Inr 1) (Inr [(''theme'', PStr ''dark'')]) world0
     = (Inr (settings_example, 200), world_settings)
   \<and> calls world_settings = calls world0 @
        [Call ''dispatch_user'' [PInt 1, PStr ''USER_SETTINGS_UPDATE'', settings_example]]
   \<and> patch_me table_handlers (Inr 1) (Inr [(''username'', PStr ''carl'')]) world0
     = (Inr (carl, 200), world_carl)
   \<and> calls world_carl = calls world0 @
        [Call ''dispatch_user'' [PInt 1, PStr ''USER_UPDATE'', carl],
         Call ''dispatch_many'' [PStr ''guild'', PList [PInt 7, PInt 8], PStr ''USER_UPDATE'', carl],
         Call ''dispatch_many'' [PStr ''friend'', PList [PInt 2], PStr ''USER_UPDATE'', carl]]"
proof -
  have g: "get_user_settings table_handlers 1 (db world_settings) = settings_example"
      "get_user table_handlers 1 False (db world_carl) = carl"
      "get_user_guilds table_handlers 1 (db world_carl) = [7, 8]"
      "get_friend_ids table_handlers 1 (db world_carl) = [2]"
    by (simp_all add: table_handlers_def world_settings_def settings_example_def world_carl_def
          carl_def str_1)
  from update_dispatch [THEN conjunct1, THEN mp, OF settings_run]
  have "calls world_settings = calls world0 @
        [Call ''dispatch_user'' [PInt 1, PStr ''USER_SETTINGS_UPDATE'', settings_example]]"
    by (auto simp: g)
  moreover from update_dispatch [THEN conjunct2, THEN mp, OF patch_me_run]
  have "calls world_carl = calls world0 @
        [Call ''dispatch_user'' [PInt 1, PStr ''USER_UPDATE'', carl],
         Call ''dispatch_many'' [PStr ''guild'', PList [PInt 7, PInt 8], PStr ''USER_UPDATE'', carl],
         Call ''dispatch_many'' [PStr ''friend'', PList [PInt 2], PStr ''USER_UPDATE'', carl]]"
    by (auto simp: g)
  ultimately show ?thesis
    using settings_run patch_me_run by simp
qed

end
